theory Spec2Isabelle
  imports Main "HOL-Library.Word" "HOL-Library.Monad_Syntax"
begin

unbundle bit_operations_syntax

section \<open>Lyra2 (CUDA): the LYRA2 entry point of Lyra2.cu\<close>

text \<open>
  The C types of the source: \<open>unsigned char\<close> is a byte, \<open>int\<close> is a 32-bit two's
  complement word (read with \<open>sint\<close>; \<open>+\<close>, \<open>*\<close> and \<open>-\<close> wrap), \<open>size_t\<close> is a 64-bit
  unsigned word, as on every host CUDA supports.
\<close>

type_synonym byte = "8 word"
type_synonym cint = "32 word"
type_synonym size_t = "64 word"

text \<open>
  The macros of \<open>Lyra2.h\<close> and \<open>Sponge.h\<close> that \<open>LYRA2\<close> reads. The headers are not among
  the sources, so the values are parameters of the model; each is an \<open>int\<close> constant.
\<close>

record macros =
  BLOCK_LEN_INT64 :: cint
  BLOCK_LEN_BYTES :: cint
  ROW_LEN_INT64 :: cint
  ROW_LEN_BYTES :: cint

definition sizeof_int :: int where
  "sizeof_int = 4"

subsection \<open>The padded input (lines 200 to 232)\<close>

text \<open>
  Line 203: \<open>int nBlocksInput = ((saltlen + pwdlen + 6*sizeof(int)) / BLOCK_LEN_BYTES) + 1\<close>.
  The sum \<open>saltlen + pwdlen\<close> is an \<open>int\<close> addition; \<open>sizeof\<close> makes the rest of the
  expression \<open>size_t\<close> arithmetic (the \<open>int\<close> operands are sign-extended), and the
  initialisation converts the result back to \<open>int\<close>. \<open>sizeof(int)\<close> is 4.
\<close>

definition nBlocksInput :: "macros \<Rightarrow> cint \<Rightarrow> cint \<Rightarrow> cint" where
  "nBlocksInput m pwdlen saltlen =
     ucast (((scast (saltlen + pwdlen) :: size_t) + 6 * 4) div scast (BLOCK_LEN_BYTES m) + 1)"

text \<open>
  \<open>memcpy(dst + off, src, n)\<close> on byte buffers. \<open>None\<close> stands for the undefined
  behaviour of C: a write that leaves the destination object, a read that leaves the
  source object, or a negative \<open>int\<close> length (it converts to a \<open>size_t\<close> above \<open>2^63\<close>).
\<close>

definition memcpy :: "byte list \<Rightarrow> int \<Rightarrow> byte list \<Rightarrow> int \<Rightarrow> byte list option" where
  "memcpy dst off src n =
     (if 0 \<le> off \<and> 0 \<le> n \<and> off + n \<le> int (length dst) \<and> n \<le> int (length src)
      then Some (take (nat off) dst @ take (nat n) src @ drop (nat (off + n)) dst)
      else None)"

text \<open>A store through \<open>ptrMem\<close>: \<open>*ptrMem = f(*ptrMem)\<close> at byte offset \<open>off\<close>.\<close>

definition poke :: "byte list \<Rightarrow> int \<Rightarrow> (byte \<Rightarrow> byte) \<Rightarrow> byte list option" where
  "poke buf off f =
     (if 0 \<le> off \<and> off < int (length buf) then Some (buf[nat off := f (buf ! nat off)])
      else None)"

text \<open>
  The object representation of an \<open>int\<close>, as \<open>memcpy(ptrMem, &kLen, sizeof(int))\<close> reads
  it: four bytes, least significant first (CUDA hosts are little-endian).
\<close>

definition int_bytes :: "cint \<Rightarrow> byte list" where
  "int_bytes x = [ucast x, ucast (drop_bit 8 x), ucast (drop_bit 16 x), ucast (drop_bit 24 x)]"


text \<open>
  Lines 203 to 232, on the zeroed \<open>MemMatrixHost\<close>: the block count, password, salt, the
  six integers of the basil in the order of the parameter list, the byte \<open>0x80\<close>, and the
  XOR of the last byte of the last block with \<open>0x01\<close>. A \<open>BLOCK_LEN_BYTES\<close> of zero is a
  division by zero.
\<close>

definition pad_input ::
  "macros \<Rightarrow> byte list \<Rightarrow> byte list \<Rightarrow> cint \<Rightarrow> cint \<Rightarrow> cint \<Rightarrow> cint \<Rightarrow> cint \<Rightarrow> cint \<Rightarrow>
     byte list \<Rightarrow> (cint \<times> byte list) option" where
  "pad_input m pwd salt kLen pwdlen saltlen timeCost nRows nCols MemMatrixHost =
     (if BLOCK_LEN_BYTES m = 0 then None
      else do {
        let nB = nBlocksInput m pwdlen saltlen;
        let ptrMem = 0;
        b \<leftarrow> memcpy MemMatrixHost ptrMem pwd (sint pwdlen);
        let ptrMem = ptrMem + sint pwdlen;
        b \<leftarrow> memcpy b ptrMem salt (sint saltlen);
        let ptrMem = ptrMem + sint saltlen;
        b \<leftarrow> memcpy b ptrMem (int_bytes kLen) sizeof_int;
        let ptrMem = ptrMem + sizeof_int;
        b \<leftarrow> memcpy b ptrMem (int_bytes pwdlen) sizeof_int;
        let ptrMem = ptrMem + sizeof_int;
        b \<leftarrow> memcpy b ptrMem (int_bytes saltlen) sizeof_int;
        let ptrMem = ptrMem + sizeof_int;
        b \<leftarrow> memcpy b ptrMem (int_bytes timeCost) sizeof_int;
        let ptrMem = ptrMem + sizeof_int;
        b \<leftarrow> memcpy b ptrMem (int_bytes nRows) sizeof_int;
        let ptrMem = ptrMem + sizeof_int;
        b \<leftarrow> memcpy b ptrMem (int_bytes nCols) sizeof_int;
        let ptrMem = ptrMem + sizeof_int;
        b \<leftarrow> poke b ptrMem (\<lambda>_. 0x80);
        let ptrMem = sint (nB * BLOCK_LEN_BYTES m - 1);
        b \<leftarrow> poke b ptrMem (\<lambda>v. v XOR 0x01);
        Some (nB, b)
      })"

text \<open>The basil: the six \<open>int\<close> parameters in the order lines 215 to 225 copy them.\<close>

definition basil :: "cint \<Rightarrow> cint \<Rightarrow> cint \<Rightarrow> cint \<Rightarrow> cint \<Rightarrow> cint \<Rightarrow> byte list" where
  "basil kLen pwdlen saltlen timeCost nRows nCols =
     concat (map int_bytes [kLen, pwdlen, saltlen, timeCost, nRows, nCols])"

subsection \<open>The runtime: resources, calls, pending errors\<close>

text \<open>
  The five allocations of \<open>LYRA2\<close>, named after the pointer variables that hold them.
\<close>

datatype resource = MemMatrixDev | StateHost | StateDev | RowADev | MemMatrixHost

text \<open>
  The calls \<open>LYRA2\<close> makes into the C library, the CUDA runtime and the sponge of
  \<open>Sponge.cu\<close>. An allocation carries its result (\<open>True\<close>: a block was obtained). The
  sponge calls carry the arguments that vary: the word offset into \<open>MemMatrixDev\<close> of the
  block or row they are given, \<open>nRows\<close>, \<open>timeCost\<close>, \<open>kLen\<close>. \<open>Squeeze\<close> is the one
  call that is handed the caller's buffer \<open>K\<close>.
\<close>

datatype call =
    CudaMalloc resource bool
  | CudaMemset resource
  | Malloc resource bool
  | Memset resource
  | CudaMemcpyHostToDevice
  | CudaMemcpyDeviceToHost
  | InitState
  | AbsorbBlock cint
  | ReducedSqueezeRow cint
  | SetupGPU cint
  | Wandering cint cint
  | Squeeze cint
  | CudaFree resource
  | Free resource

text \<open>
  What the caller sees: the returned status, or \<open>Undefined\<close> when the call has run into
  undefined behaviour of C (a write outside \<open>MemMatrixHost\<close>).
\<close>

datatype outcome = Status int | Undefined

text \<open>
  The state a call of \<open>LYRA2\<close> runs in: the calls made so far, in order; the error
  variable of the CUDA runtime, which a failing runtime call or kernel launch sets and
  which stays set until \<open>cudaGetLastError\<close> reads and clears it; the bytes of
  \<open>MemMatrixHost\<close>.
\<close>

record world =
  trace :: "call list"
  lastError :: bool
  hostRow :: "byte list"

text \<open>
  The environment: which call fails, by the source line of the call and, inside the
  absorb loop, the iteration; and the row index the wandering kernel leaves in
  \<open>rowADev\<close>. Every call whose error \<open>LYRA2\<close> can read is in the plan: the
  allocations, the \<open>cudaMemset\<close> and \<open>cudaMemcpy\<close> calls, the sponge calls, and the
  \<open>cudaFree\<close> of line 350, which the check of line 353 follows. The \<open>free\<close> and
  \<open>cudaFree\<close> calls of a failure branch are followed by \<open>return\<close>, and the host's
  \<open>memset\<close> and \<open>free\<close> report nothing.
\<close>

record env =
  fails :: "nat \<Rightarrow> nat \<Rightarrow> bool"
  rowa :: cint

definition fresh :: world where
  "fresh = \<lparr>trace = [], lastError = False, hostRow = []\<rparr>"

definition log :: "call \<Rightarrow> world \<Rightarrow> world" where
  "log c w = w\<lparr>trace := trace w @ [c]\<rparr>"

text \<open>A CUDA runtime call or kernel launch at line \<open>l\<close>, iteration \<open>i\<close>.\<close>

definition cuda :: "env \<Rightarrow> nat \<Rightarrow> nat \<Rightarrow> call \<Rightarrow> world \<Rightarrow> world" where
  "cuda e l i c w = (log c w)\<lparr>lastError := lastError w \<or> fails e l i\<rparr>"

definition cudaGetLastError :: "world \<Rightarrow> bool \<times> world" where
  "cudaGetLastError w = (lastError w, w\<lparr>lastError := False\<rparr>)"

definition cudaMalloc :: "env \<Rightarrow> nat \<Rightarrow> resource \<Rightarrow> world \<Rightarrow> world" where
  "cudaMalloc e l r w = cuda e l 0 (CudaMalloc r (\<not> fails e l 0)) w"

text \<open>\<open>malloc\<close> returns whether the pointer is non-null.\<close>

definition malloc :: "env \<Rightarrow> nat \<Rightarrow> resource \<Rightarrow> world \<Rightarrow> bool \<times> world" where
  "malloc e l r w = (\<not> fails e l 0, log (Malloc r (\<not> fails e l 0)) w)"

text \<open>\<open>memset(MemMatrixHost, 0, ROW_LEN_BYTES)\<close>.\<close>

definition memset_row :: "macros \<Rightarrow> world \<Rightarrow> world" where
  "memset_row m w =
     (log (Memset MemMatrixHost) w)\<lparr>hostRow := replicate (nat (sint (ROW_LEN_BYTES m))) 0\<rparr>"

text \<open>
  A failure branch: the \<open>free\<close> and \<open>cudaFree\<close> calls of the branch, in the order the
  source makes them, then \<open>return -1\<close>.
\<close>

definition cleanup :: "call list \<Rightarrow> world \<Rightarrow> world" where
  "cleanup cs w = w\<lparr>trace := trace w @ cs\<rparr>"

definition fail_with :: "call list \<Rightarrow> world \<Rightarrow> (outcome + 'a) \<times> world" where
  "fail_with cs w = (Inl (Status (- 1)), cleanup cs w)"

definition unwind :: "call list" where
  "unwind = [Free StateHost, CudaFree StateDev, CudaFree MemMatrixDev, CudaFree RowADev]"

subsection \<open>The sections of LYRA2\<close>

text \<open>
  Each section returns \<open>Inl\<close> of the outcome when \<open>LYRA2\<close> returns inside it, and
  \<open>Inr\<close> of the values the next section needs when control goes on.
\<close>

text \<open>Lines 89 to 180: the device matrix, the two sponge states, the row index.\<close>

definition init_matrix :: "env \<Rightarrow> world \<Rightarrow> (outcome + unit) \<times> world" where
  "init_matrix e w =
     (case cudaGetLastError (cudaMalloc e 93 MemMatrixDev w) of (err, w) \<Rightarrow>
      if err then fail_with [CudaFree MemMatrixDev] w else
      case cudaGetLastError (cuda e 103 0 (CudaMemset MemMatrixDev) w) of (err, w) \<Rightarrow>
      if err then fail_with [CudaFree MemMatrixDev] w else
      case malloc e 114 StateHost w of (ok, w) \<Rightarrow>
      if \<not> ok then fail_with [CudaFree MemMatrixDev, Free StateHost] w else
      case cudaGetLastError (cudaMalloc e 127 StateDev (log (Memset StateHost) w)) of (err, w) \<Rightarrow>
      if err then fail_with [CudaFree MemMatrixDev, Free StateHost, CudaFree StateDev] w else
      case cudaGetLastError (cuda e 140 0 (CudaMemset StateDev) w) of (err, w) \<Rightarrow>
      if err then fail_with [Free StateHost, CudaFree StateDev, CudaFree MemMatrixDev] w else
      case cudaGetLastError (cudaMalloc e 154 RowADev w) of (err, w) \<Rightarrow>
      if err then fail_with (unwind) w else
      case cudaGetLastError (cuda e 168 0 (CudaMemset RowADev) w) of (err, w) \<Rightarrow>
      if err then fail_with unwind w else
      (Inr (), w))"

text \<open>
  Lines 183 to 249: the host row, the padded input in it, its copy to the device, and
  the host row zeroed again.
\<close>

definition get_padded_input ::
  "macros \<Rightarrow> env \<Rightarrow> byte list \<Rightarrow> byte list \<Rightarrow> cint \<Rightarrow> cint \<Rightarrow> cint \<Rightarrow> cint \<Rightarrow> cint \<Rightarrow> cint \<Rightarrow>
     world \<Rightarrow> (outcome + cint) \<times> world" where
  "get_padded_input m e pwd salt kLen pwdlen saltlen timeCost nRows nCols w =
     (case malloc e 187 MemMatrixHost w of (ok, w) \<Rightarrow>
      if \<not> ok then fail_with (unwind @ [Free MemMatrixHost]) w else
      (case pad_input m pwd salt kLen pwdlen saltlen timeCost nRows nCols
              (hostRow (memset_row m w)) of
         None \<Rightarrow> (Inl Undefined, memset_row m w)
       | Some (nB, b) \<Rightarrow>
           (case cudaGetLastError
                   (cuda e 235 0 CudaMemcpyHostToDevice ((memset_row m w)\<lparr>hostRow := b\<rparr>)) of
              (err, w) \<Rightarrow>
                (if err then fail_with unwind w else (Inr nB, memset_row m w)))))"

text \<open>
  Lines 259 to 275: \<open>for (i = 0; i < nBlocksInput; i++)\<close>, with \<open>ptrWord\<close> the word
  offset of the block to absorb.
\<close>

function absorb_loop ::
  "macros \<Rightarrow> env \<Rightarrow> cint \<Rightarrow> cint \<Rightarrow> cint \<Rightarrow> world \<Rightarrow> (outcome + unit) \<times> world" where
  "absorb_loop m e nB i ptrWord w =
     (if i <s nB then
        (case cudaGetLastError (cuda e 261 (nat (sint i)) (AbsorbBlock ptrWord) w) of
           (err, w') \<Rightarrow>
             if err then fail_with unwind w'
             else absorb_loop m e nB (i + 1) ((i + 1) * BLOCK_LEN_INT64 m) w')
      else (Inr (), w))"
  by pat_completeness auto

termination absorb_loop
  apply (relation "measure (\<lambda>(m, e, nB, i, ptrWord, w). nat (sint nB - sint i))")
   apply simp
  subgoal for m e nB i
    using sint_lt [of nB] sint_ge [of i]
    by (simp add: word_sless_alt sint_word_add signed_take_bit_int_eq_self)
  done

text \<open>Lines 251 to 276: \<open>initState\<close>, whose result is not read, then the loop.\<close>

definition absorb_input :: "macros \<Rightarrow> env \<Rightarrow> cint \<Rightarrow> world \<Rightarrow> (outcome + unit) \<times> world" where
  "absorb_input m e nB w = absorb_loop m e nB 0 0 (cuda e 252 0 InitState w)"

text \<open>
  Lines 278 to 295: the two \<open>reducedSqueezeRow\<close> launches on rows 0 and 1 and the
  \<open>setupGPU\<close> launch, with one error check after the three.
\<close>

definition setup_phase :: "macros \<Rightarrow> env \<Rightarrow> cint \<Rightarrow> world \<Rightarrow> (outcome + unit) \<times> world" where
  "setup_phase m e nRows w =
     (case cudaGetLastError
             (cuda e 283 0 (SetupGPU nRows)
               (cuda e 281 0 (ReducedSqueezeRow (ROW_LEN_INT64 m))
                 (cuda e 279 0 (ReducedSqueezeRow 0) w))) of
        (err, w) \<Rightarrow> if err then fail_with unwind w else (Inr (), w))"

text \<open>Lines 297 to 325: the wandering kernel, then \<open>rowa\<close> copied back to the host.\<close>

definition wandering_phase ::
  "env \<Rightarrow> cint \<Rightarrow> cint \<Rightarrow> world \<Rightarrow> (outcome + cint) \<times> world" where
  "wandering_phase e timeCost nRows w =
     (case cudaGetLastError (cuda e 298 0 (Wandering timeCost nRows) w) of (err, w) \<Rightarrow>
      if err then fail_with unwind w else
      case cudaGetLastError (cuda e 313 0 CudaMemcpyDeviceToHost w) of (err, w) \<Rightarrow>
      if err then fail_with unwind w else (Inr (rowa e), w))"

text \<open>
  Lines 328 to 347: the row \<open>rowaCPU\<close> absorbed, then \<open>squeeze(stateDev, K, kLen)\<close>,
  whose result is not read.
\<close>

definition wrapup_phase ::
  "macros \<Rightarrow> env \<Rightarrow> cint \<Rightarrow> cint \<Rightarrow> world \<Rightarrow> (outcome + unit) \<times> world" where
  "wrapup_phase m e rowaCPU kLen w =
     (case cudaGetLastError (cuda e 330 0 (AbsorbBlock (rowaCPU * ROW_LEN_INT64 m)) w) of
        (err, w) \<Rightarrow>
          if err then fail_with unwind w else (Inr (), cuda e 346 0 (Squeeze kLen) w))"

text \<open>Lines 349 to 373: the matrix freed, the sponge state wiped, the rest freed.\<close>

definition free_memory :: "env \<Rightarrow> world \<Rightarrow> outcome \<times> world" where
  "free_memory e w =
     (case cudaGetLastError
             (cuda e 352 0 (CudaMemset StateDev) (cuda e 350 0 (CudaFree MemMatrixDev) w)) of
        (err, w) \<Rightarrow>
          if err
          then (Status (- 1),
                cleanup [Free StateHost, Free MemMatrixHost, CudaFree StateDev, CudaFree RowADev] w)
          else (Status 0,
                cleanup [CudaFree StateDev, CudaFree RowADev, Free StateHost, Free MemMatrixHost] w))"

subsection \<open>LYRA2\<close>

text \<open>
  \<open>int LYRA2(unsigned char *K, int kLen, const unsigned char *pwd, int pwdlen,
  const unsigned char *salt, int saltlen, int timeCost, int nRows, int nCols)\<close>.
  \<open>pwd\<close> and \<open>salt\<close> are the byte objects the pointers address. \<open>K\<close> is written by
  \<open>squeeze\<close> alone, so the trace tells whether it has been handed to the sponge.
\<close>

definition LYRA2 ::
  "macros \<Rightarrow> env \<Rightarrow> cint \<Rightarrow> byte list \<Rightarrow> cint \<Rightarrow> byte list \<Rightarrow> cint \<Rightarrow> cint \<Rightarrow> cint \<Rightarrow> cint \<Rightarrow>
     world \<Rightarrow> outcome \<times> world" where
  "LYRA2 m e kLen pwd pwdlen salt saltlen timeCost nRows nCols w =
     (if ROW_LEN_BYTES m <s pwdlen + saltlen then (Status (- 1), w) else
      case init_matrix e w of (Inl st, w) \<Rightarrow> (st, w) | (Inr _, w) \<Rightarrow>
      (case get_padded_input m e pwd salt kLen pwdlen saltlen timeCost nRows nCols w of
         (Inl st, w) \<Rightarrow> (st, w) | (Inr nBlocks, w) \<Rightarrow>
      (case absorb_input m e nBlocks w of (Inl st, w) \<Rightarrow> (st, w) | (Inr _, w) \<Rightarrow>
      (case setup_phase m e nRows w of (Inl st, w) \<Rightarrow> (st, w) | (Inr _, w) \<Rightarrow>
      (case wandering_phase e timeCost nRows w of (Inl st, w) \<Rightarrow> (st, w) | (Inr rowaCPU, w) \<Rightarrow>
      (case wrapup_phase m e rowaCPU kLen w of (Inl st, w) \<Rightarrow> (st, w) | (Inr _, w) \<Rightarrow>
         free_memory e w))))))"

subsection \<open>Reading a trace\<close>

text \<open>
  The resources a trace has acquired (successful allocations, in order), the pointer
  variables it has passed to \<open>free\<close> or \<open>cudaFree\<close> (in order), and its sponge calls.
\<close>

fun acquires :: "call \<Rightarrow> resource list" where
  "acquires (CudaMalloc r ok) = (if ok then [r] else [])"
| "acquires (Malloc r ok) = (if ok then [r] else [])"
| "acquires _ = []"

fun frees :: "call \<Rightarrow> resource list" where
  "frees (CudaFree r) = [r]"
| "frees (Free r) = [r]"
| "frees _ = []"

fun is_engine :: "call \<Rightarrow> bool" where
  "is_engine InitState = True"
| "is_engine (AbsorbBlock _) = True"
| "is_engine (ReducedSqueezeRow _) = True"
| "is_engine (SetupGPU _) = True"
| "is_engine (Wandering _ _) = True"
| "is_engine (Squeeze _) = True"
| "is_engine _ = False"

definition acquired :: "call list \<Rightarrow> resource list" where
  "acquired t = concat (map acquires t)"

definition freed :: "call list \<Rightarrow> resource list" where
  "freed t = concat (map frees t)"

definition engine_calls :: "call list \<Rightarrow> call list" where
  "engine_calls t = filter is_engine t"

text \<open>The blocks \<open>i\<close> to \<open>j - 1\<close> of the padded input, absorbed in index order.\<close>

definition block_absorbs :: "macros \<Rightarrow> nat \<Rightarrow> nat \<Rightarrow> call list" where
  "block_absorbs m i j = map (\<lambda>k. AbsorbBlock (of_nat k * BLOCK_LEN_INT64 m)) [i..<j]"

text \<open>
  The calls of lines 93 to 168 when every one of them succeeds, the traces of the exits
  taken before \<open>MemMatrixHost\<close> is obtained, and the calls between its allocation and
  \<open>squeeze\<close> when nothing fails.
\<close>

definition calls_init :: "call list" where
  "calls_init =
     [CudaMalloc MemMatrixDev True, CudaMemset MemMatrixDev, Malloc StateHost True,
      Memset StateHost, CudaMalloc StateDev True, CudaMemset StateDev,
      CudaMalloc RowADev True, CudaMemset RowADev]"

definition early_exits :: "call list list" where
  "early_exits =
     [[],
      [CudaMalloc MemMatrixDev False, CudaFree MemMatrixDev],
      [CudaMalloc MemMatrixDev True, CudaMemset MemMatrixDev, CudaFree MemMatrixDev],
      [CudaMalloc MemMatrixDev True, CudaMemset MemMatrixDev, Malloc StateHost False,
       CudaFree MemMatrixDev, Free StateHost],
      [CudaMalloc MemMatrixDev True, CudaMemset MemMatrixDev, Malloc StateHost True,
       Memset StateHost, CudaMalloc StateDev False, CudaFree MemMatrixDev, Free StateHost,
       CudaFree StateDev],
      [CudaMalloc MemMatrixDev True, CudaMemset MemMatrixDev, Malloc StateHost True,
       Memset StateHost, CudaMalloc StateDev True, CudaMemset StateDev, Free StateHost,
       CudaFree StateDev, CudaFree MemMatrixDev],
      [CudaMalloc MemMatrixDev True, CudaMemset MemMatrixDev, Malloc StateHost True,
       Memset StateHost, CudaMalloc StateDev True, CudaMemset StateDev,
       CudaMalloc RowADev False] @ unwind,
      calls_init @ unwind,
      calls_init @ [Malloc MemMatrixHost False] @ unwind @ [Free MemMatrixHost]]"

definition main_calls :: "macros \<Rightarrow> env \<Rightarrow> cint \<Rightarrow> cint \<Rightarrow> cint \<Rightarrow> cint \<Rightarrow> call list" where
  "main_calls m e pwdlen saltlen timeCost nRows =
     [Memset MemMatrixHost, CudaMemcpyHostToDevice, Memset MemMatrixHost, InitState] @
     block_absorbs m 0 (nat (sint (nBlocksInput m pwdlen saltlen))) @
     [ReducedSqueezeRow 0, ReducedSqueezeRow (ROW_LEN_INT64 m), SetupGPU nRows,
      Wandering timeCost nRows, CudaMemcpyDeviceToHost,
      AbsorbBlock (rowa e * ROW_LEN_INT64 m)]"

text \<open>
  Some sponge call of the path to \<open>squeeze\<close> fails: \<open>initState\<close>, one of the
  \<open>absorbBlock\<close> launches of the loop, a \<open>reducedSqueezeRow\<close>, \<open>setupGPU\<close>, \<open>wandering\<close>,
  the last \<open>absorbBlock\<close>, or \<open>squeeze\<close>.
\<close>

definition engine_failed :: "macros \<Rightarrow> env \<Rightarrow> cint \<Rightarrow> cint \<Rightarrow> bool" where
  "engine_failed m e pwdlen saltlen =
     (fails e 252 0 \<or>
      list_ex (\<lambda>i. fails e 261 i) [0..<nat (sint (nBlocksInput m pwdlen saltlen))] \<or>
      fails e 279 0 \<or> fails e 281 0 \<or> fails e 283 0 \<or> fails e 298 0 \<or> fails e 330 0 \<or>
      fails e 346 0)"

text \<open>Calls that neither allocate nor free, and are not \<open>squeeze\<close>.\<close>

fun neutral :: "call \<Rightarrow> bool" where
  "neutral (CudaMalloc _ _) = False"
| "neutral (Malloc _ _) = False"
| "neutral (CudaFree _) = False"
| "neutral (Free _) = False"
| "neutral (Squeeze _) = False"
| "neutral _ = True"

text \<open>
  The calls that are given \<open>stateDev\<close> to write: the \<open>cudaMemset\<close> that zeroes it and the
  sponge calls, each of which takes it as its first argument (lines 252 to 346).
  \<open>wiped_before_free\<close> reads from a trace whether the last of them before
  \<open>cudaFree(stateDev)\<close> is the zeroing.
\<close>

fun on_state :: "call \<Rightarrow> bool" where
  "on_state (CudaMemset r) = (r = StateDev)"
| "on_state c = is_engine c"

definition wiped_before_free :: "call list \<Rightarrow> bool" where
  "wiped_before_free t =
     (case rev (filter on_state (takeWhile (\<lambda>c. c \<noteq> CudaFree StateDev) t)) of
        [] \<Rightarrow> False
      | c # _ \<Rightarrow> c = CudaMemset StateDev)"

text \<open>The bytes in front of the padding: password, salt, basil.\<close>

definition staged ::
  "byte list \<Rightarrow> cint \<Rightarrow> byte list \<Rightarrow> cint \<Rightarrow> cint \<Rightarrow> cint \<Rightarrow> cint \<Rightarrow> cint \<Rightarrow> byte list" where
  "staged pwd pwdlen salt saltlen kLen timeCost nRows nCols =
     take (nat (sint pwdlen)) pwd @ take (nat (sint saltlen)) salt @
     basil kLen pwdlen saltlen timeCost nRows nCols"

subsection \<open>A build and a call to evaluate\<close>

text \<open>
  The macro values the comments of the source give: a bitrate of 8 \<open>uint64_t\<close> (line
  113), so blocks of 64 bytes, and 64 columns (line 27), so rows of 512 words, 4096
  bytes. The call: password \<open>password\<close>, salt \<open>salt\<close>, \<open>kLen = 64\<close>, \<open>timeCost = 1\<close>,
  \<open>nRows = 3\<close>, \<open>nCols = 64\<close>. The environments: nothing fails, or the one call at
  line \<open>l\<close>, iteration \<open>i\<close> fails; the wandering kernel leaves row 2.
\<close>

definition lyra2_h :: macros where
  "lyra2_h = \<lparr>BLOCK_LEN_INT64 = 8, BLOCK_LEN_BYTES = 64, ROW_LEN_INT64 = 512,
     ROW_LEN_BYTES = 4096\<rparr>"

definition pwd0 :: "byte list" where
  "pwd0 = [0x70, 0x61, 0x73, 0x73, 0x77, 0x6F, 0x72, 0x64]"

definition salt0 :: "byte list" where
  "salt0 = [0x73, 0x61, 0x6C, 0x74]"

definition no_faults :: env where
  "no_faults = \<lparr>fails = (\<lambda>l i. False), rowa = 2\<rparr>"

definition fault_at :: "nat \<Rightarrow> nat \<Rightarrow> env" where
  "fault_at l i = \<lparr>fails = (\<lambda>l' i'. l' = l \<and> i' = i), rowa = 2\<rparr>"

definition run0 :: "env \<Rightarrow> outcome \<times> world" where
  "run0 e = LYRA2 lyra2_h e 64 pwd0 8 salt0 4 1 3 64 fresh"

text \<open>The padded row of that call: the 36 bytes, \<open>0x80\<close>, and \<open>0x01\<close> at offset 63.\<close>

definition row0 :: "byte list" where
  "row0 = (staged pwd0 8 salt0 4 64 1 3 64 @ 0x80 # replicate 4059 0)[63 := 0x01]"

section \<open>Machine arithmetic\<close>

lemma sint_add_nowrap:
  fixes a b :: cint
  assumes "- (2^31) \<le> sint a + sint b" "sint a + sint b < 2^31"
  shows "sint (a + b) = sint a + sint b"
  using assms by (simp add: sint_word_add signed_take_bit_int_eq_self)

lemma sint_mult_nowrap:
  fixes a b :: cint
  assumes "- (2^31) \<le> sint a * sint b" "sint a * sint b < 2^31"
  shows "sint (a * b) = sint a * sint b"
  using assms by (simp add: sint_word_mult signed_take_bit_int_eq_self)

lemma sint_pred_nowrap:
  fixes a :: cint
  assumes "- (2^31) < sint a"
  shows "sint (a - 1) = sint a - 1"
proof -
  have "sint a < 2 ^ (LENGTH(32) - 1)" by (rule sint_lt)
  then show ?thesis
    using assms by (simp add: sint_word_diff signed_take_bit_int_eq_self)
qed

lemma uint_scast_nonneg:
  fixes a :: cint
  assumes "0 \<le> sint a"
  shows "uint (scast a :: size_t) = sint a"
proof -
  have "sint a < 2 ^ (LENGTH(32) - 1)" by (rule sint_lt)
  also have "(2::int) ^ (LENGTH(32) - 1) \<le> 2 ^ LENGTH(64)" by (rule power_increasing) simp_all
  finally have lt: "sint a < 2 ^ LENGTH(64)" .
  have "uint (scast a :: size_t) = sint a mod 2 ^ LENGTH(64)"
    unfolding scast_eq by (rule uint_word_of_int)
  also have "\<dots> = sint a" using assms lt by (rule mod_pos_pos_trivial)
  finally show ?thesis .
qed

lemma sint_ucast_small:
  fixes x :: size_t
  assumes "uint x < 2^31"
  shows "sint (ucast x :: cint) = uint x"
proof -
  have "sint (ucast x :: cint) = signed_take_bit (LENGTH(32) - 1) (uint x)"
    unfolding ucast_eq by (rule sint_sbintrunc')
  also have "\<dots> = uint x"
  proof (rule signed_take_bit_int_eq_self)
    have "(- (2 ^ (LENGTH(32) - 1)) :: int) \<le> 0" by simp
    also have "0 \<le> uint x" by simp
    finally show "- (2 ^ (LENGTH(32) - 1)) \<le> uint x" .
    show "uint x < 2 ^ (LENGTH(32) - 1)" using assms by simp
  qed
  finally show ?thesis .
qed

lemma uint_add_small:
  fixes x :: size_t
  assumes "uint x + uint y < 2^32"
  shows "uint (x + y) = uint x + uint y"
proof -
  have "(2::int) ^ 32 \<le> 2 ^ LENGTH(64)" by (rule power_increasing) simp_all
  with assms have "uint x + uint y < 2 ^ LENGTH(64)" by linarith
  then show ?thesis by (simp only: uint_add_lem)
qed

lemma nBlocksInput_sint:
  assumes p: "0 \<le> sint pwdlen" and s: "0 \<le> sint saltlen"
    and B: "0 < sint (BLOCK_LEN_BYTES m)"
    and nov: "sint pwdlen + sint saltlen < 2^31"
    and res: "(sint pwdlen + sint saltlen + 24) div sint (BLOCK_LEN_BYTES m) + 1 < 2^31"
  shows "sint (nBlocksInput m pwdlen saltlen) =
           (sint pwdlen + sint saltlen + 24) div sint (BLOCK_LEN_BYTES m) + 1"
proof -
  let ?S = "sint pwdlen + sint saltlen"
  let ?B = "BLOCK_LEN_BYTES m"
  let ?x = "scast (saltlen + pwdlen) :: size_t"
  have sum: "sint (saltlen + pwdlen) = ?S"
    using p s nov sint_add_nowrap [of saltlen pwdlen] by simp
  have a: "uint ?x = ?S"
    using p s by (simp add: uint_scast_nonneg sum)
  have u24: "uint (24 :: size_t) = 24" by simp
  have b: "uint (?x + 24) = ?S + 24"
    using nov a u24 uint_add_small [of ?x 24] by simp
  have c: "uint (scast ?B :: size_t) = sint ?B"
    using B by (simp add: uint_scast_nonneg)
  have d: "uint ((?x + 24) div scast ?B) = (?S + 24) div sint ?B"
    by (simp only: uint_div b c)
  have u1: "uint (1 :: size_t) = 1" by simp
  have e: "uint ((?x + 24) div scast ?B + 1) = (?S + 24) div sint ?B + 1"
    using res d u1 uint_add_small [of "(?x + 24) div scast ?B" 1] by simp
  have "sint (ucast ((?x + 24) div scast ?B + 1) :: cint) = uint ((?x + 24) div scast ?B + 1)"
    by (rule sint_ucast_small) (use e res in simp)
  then show ?thesis
    unfolding nBlocksInput_def using e by simp
qed

section \<open>The padded input\<close>

lemma memcpy_zeros:
  assumes "off = int (length xs)" and "0 \<le> n" and "n \<le> int (length src)" and "nat n \<le> k"
  shows "memcpy (xs @ replicate k 0) off src n =
           Some ((xs @ take (nat n) src) @ replicate (k - nat n) 0)"
  using assms by (simp add: memcpy_def nat_add_distrib)

lemma length_int_bytes: "length (int_bytes x) = 4"
  by (simp add: int_bytes_def)

lemma memcpy_int_zeros:
  assumes "off = int (length xs)" and "4 \<le> k"
  shows "memcpy (xs @ replicate k 0) off (int_bytes x) 4 =
           Some ((xs @ int_bytes x) @ replicate (k - 4) 0)"
  using memcpy_zeros [of off xs 4 "int_bytes x" k] assms by (simp add: length_int_bytes)

lemma block_end_gt:
  fixes L B :: int
  assumes "0 < B"
  shows "L < (L div B + 1) * B"
proof -
  have a: "L div B * B + L mod B = L" by (rule div_mult_mod_eq)
  have b: "L mod B < B" using assms by simp
  have c: "(L div B + 1) * B = L div B * B + B" by (simp add: algebra_simps)
  show ?thesis using a b c by linarith
qed

lemma pad_input_fits:
  fixes kLen timeCost nRows nCols :: cint
  assumes B: "0 < sint (BLOCK_LEN_BYTES m)"
    and p: "0 \<le> sint pwdlen" "sint pwdlen \<le> int (length pwd)"
    and s: "0 \<le> sint saltlen" "sint saltlen \<le> int (length salt)"
    and fit: "((sint pwdlen + sint saltlen + 24) div sint (BLOCK_LEN_BYTES m) + 1)
                * sint (BLOCK_LEN_BYTES m) \<le> sint (ROW_LEN_BYTES m)"
  defines "D \<equiv> staged pwd pwdlen salt saltlen kLen timeCost nRows nCols"
    and "R \<equiv> nat (sint (ROW_LEN_BYTES m))"
    and "E \<equiv> nat (((sint pwdlen + sint saltlen + 24) div sint (BLOCK_LEN_BYTES m) + 1)
                * sint (BLOCK_LEN_BYTES m) - 1)"
  shows "pad_input m pwd salt kLen pwdlen saltlen timeCost nRows nCols (replicate R 0) =
           Some (nBlocksInput m pwdlen saltlen,
                 (D @ 0x80 # replicate (R - length D - 1) 0)
                   [E := ((D @ 0x80 # replicate (R - length D - 1) 0) ! E) XOR 0x01])"
    and "length D = nat (sint pwdlen + sint saltlen + 24)"
    and "length D \<le> E" and "E < R"
proof -
  let ?B = "sint (BLOCK_LEN_BYTES m)"
  let ?L = "sint pwdlen + sint saltlen + 24"
  let ?N = "(?L div ?B + 1) * ?B"
  define P where "P = nat (sint pwdlen)"
  define S where "S = nat (sint saltlen)"
  have Pi: "sint pwdlen = int P" and Si: "sint saltlen = int S"
    using p s by (simp_all add: P_def S_def)
  have Rlt: "sint (ROW_LEN_BYTES m) < 2 ^ 31"
    using sint_lt [of "ROW_LEN_BYTES m"] by simp
  have LN: "?L < ?N" using B by (rule block_end_gt)
  have LR: "?L < sint (ROW_LEN_BYTES m)" using LN fit by linarith
  have q0: "0 \<le> ?L div ?B" using p s B by (simp add: pos_imp_zdiv_nonneg_iff)
  have qN: "?L div ?B + 1 \<le> ?N"
  proof -
    have "(?L div ?B + 1) * 1 \<le> (?L div ?B + 1) * ?B"
      using B q0 by (intro mult_left_mono) simp_all
    then show ?thesis by simp
  qed
  have nB: "sint (nBlocksInput m pwdlen saltlen) = ?L div ?B + 1"
    using p s B LR Rlt qN fit by (intro nBlocksInput_sint) simp_all
  have prod: "sint (nBlocksInput m pwdlen saltlen * BLOCK_LEN_BYTES m) = ?N"
    using sint_mult_nowrap [of "nBlocksInput m pwdlen saltlen" "BLOCK_LEN_BYTES m"]
      nB fit Rlt LN p s by simp
  have Eint: "sint (nBlocksInput m pwdlen saltlen * BLOCK_LEN_BYTES m - 1) = ?N - 1"
    using sint_pred_nowrap [of "nBlocksInput m pwdlen saltlen * BLOCK_LEN_BYTES m"]
      prod LN p s by simp
  have lenD: "length D = P + S + 24"
    using p s by (simp add: D_def staged_def basil_def length_int_bytes P_def S_def)
  show "length D = nat ?L" using lenD by (simp add: Pi Si nat_add_distrib)
  have EN: "int E = ?N - 1" unfolding E_def using LN p s by simp
  show DE: "length D \<le> E" using EN LN lenD Pi Si by linarith
  show ER: "E < R" using EN fit p s LN unfolding R_def by linarith
  have Bnz: "BLOCK_LEN_BYTES m \<noteq> 0" using B by auto
  have RL: "P + S + 24 < R" using LR p s unfolding R_def P_def S_def by linarith
  let ?x1 = "take P pwd"
  let ?x2 = "?x1 @ take S salt"
  let ?x3 = "?x2 @ int_bytes kLen"
  let ?x4 = "?x3 @ int_bytes pwdlen"
  let ?x5 = "?x4 @ int_bytes saltlen"
  let ?x6 = "?x5 @ int_bytes timeCost"
  let ?x7 = "?x6 @ int_bytes nRows"
  let ?x8 = "?x7 @ int_bytes nCols"
  have lp: "P \<le> length pwd" and ls: "S \<le> length salt"
    using p s by (simp_all add: P_def S_def)
  have c1: "memcpy (replicate R 0) 0 pwd (int P) = Some (?x1 @ replicate (R - P) 0)"
    using memcpy_zeros [of 0 "[]" "int P" pwd R] lp RL by simp
  have c2: "memcpy (?x1 @ replicate (R - P) 0) (0 + int P) salt (int S)
              = Some (?x2 @ replicate (R - P - S) 0)"
    using memcpy_zeros [of "0 + int P" ?x1 "int S" salt "R - P"] lp ls RL by simp
  have c3: "memcpy (?x2 @ replicate (R - P - S) 0) (0 + int P + int S) (int_bytes kLen) 4
              = Some (?x3 @ replicate (R - P - S - 4) 0)"
    using memcpy_int_zeros [of "0 + int P + int S" ?x2 "R - P - S" kLen] lp ls RL by simp
  have c4: "memcpy (?x3 @ replicate (R - P - S - 4) 0) (0 + int P + int S + 4) (int_bytes pwdlen) 4
              = Some (?x4 @ replicate (R - P - S - 4 - 4) 0)"
    using memcpy_int_zeros [of "0 + int P + int S + 4" ?x3 "R - P - S - 4" pwdlen] lp ls RL
    by (simp add: length_int_bytes)
  have c5: "memcpy (?x4 @ replicate (R - P - S - 4 - 4) 0) (0 + int P + int S + 4 + 4) (int_bytes saltlen) 4
              = Some (?x5 @ replicate (R - P - S - 4 - 4 - 4) 0)"
    using memcpy_int_zeros [of "0 + int P + int S + 4 + 4" ?x4 "R - P - S - 4 - 4" saltlen] lp ls RL
    by (simp add: length_int_bytes)
  have c6: "memcpy (?x5 @ replicate (R - P - S - 4 - 4 - 4) 0) (0 + int P + int S + 4 + 4 + 4) (int_bytes timeCost) 4
              = Some (?x6 @ replicate (R - P - S - 4 - 4 - 4 - 4) 0)"
    using memcpy_int_zeros [of "0 + int P + int S + 4 + 4 + 4" ?x5 "R - P - S - 4 - 4 - 4" timeCost] lp ls RL
    by (simp add: length_int_bytes)
  have c7: "memcpy (?x6 @ replicate (R - P - S - 4 - 4 - 4 - 4) 0) (0 + int P + int S + 4 + 4 + 4 + 4) (int_bytes nRows) 4
              = Some (?x7 @ replicate (R - P - S - 4 - 4 - 4 - 4 - 4) 0)"
    using memcpy_int_zeros [of "0 + int P + int S + 4 + 4 + 4 + 4" ?x6 "R - P - S - 4 - 4 - 4 - 4" nRows] lp ls RL
    by (simp add: length_int_bytes)
  have c8: "memcpy (?x7 @ replicate (R - P - S - 4 - 4 - 4 - 4 - 4) 0) (0 + int P + int S + 4 + 4 + 4 + 4 + 4) (int_bytes nCols) 4
              = Some (?x8 @ replicate (R - P - S - 4 - 4 - 4 - 4 - 4 - 4) 0)"
    using memcpy_int_zeros [of "0 + int P + int S + 4 + 4 + 4 + 4 + 4" ?x7 "R - P - S - 4 - 4 - 4 - 4 - 4" nCols] lp ls RL
    by (simp add: length_int_bytes)
  have D8: "?x8 = D"
    by (simp add: D_def staged_def basil_def P_def S_def)
  have k8: "R - P - S - 4 - 4 - 4 - 4 - 4 - 4 = Suc (R - length D - 1)"
    using RL lenD by simp
  have c9: "poke (D @ replicate (Suc (R - length D - 1)) 0) (0 + int P + int S + 4 + 4 + 4 + 4 + 4 + 4) (\<lambda>_. 0x80)
              = Some (D @ 0x80 # replicate (R - length D - 1) 0)"
  proof -
    have idx: "0 + int P + int S + 4 + 4 + 4 + 4 + 4 + 4 = int (length D)"
      using lenD by simp
    show ?thesis unfolding idx poke_def by simp
  qed
  have lenF: "length (D @ 0x80 # replicate (R - length D - 1) 0) = R"
    using RL lenD by simp
  have c10: "poke (D @ 0x80 # replicate (R - length D - 1) 0) (?N - 1) (\<lambda>v. v XOR 0x01)
              = Some ((D @ 0x80 # replicate (R - length D - 1) 0)
                   [E := ((D @ 0x80 # replicate (R - length D - 1) 0) ! E) XOR 0x01])"
  proof -
    have "poke (D @ 0x80 # replicate (R - length D - 1) 0) (int E) (\<lambda>v. v XOR 0x01)
              = Some ((D @ 0x80 # replicate (R - length D - 1) 0)
                   [E := ((D @ 0x80 # replicate (R - length D - 1) 0) ! E) XOR 0x01])"
      unfolding poke_def lenF using ER by simp
    then show ?thesis by (simp only: EN)
  qed
  show "pad_input m pwd salt kLen pwdlen saltlen timeCost nRows nCols (replicate R 0) =
           Some (nBlocksInput m pwdlen saltlen,
                 (D @ 0x80 # replicate (R - length D - 1) 0)
                   [E := ((D @ 0x80 # replicate (R - length D - 1) 0) ! E) XOR 0x01])"
    unfolding pad_input_def
    by (simp only: Bnz if_False Let_def sizeof_int_def Eint Pi Si c1 c2 c3 c4 c5 c6 c7 c8 D8 k8
          c9 c10 [unfolded Pi Si] Option.bind.simps)
qed

section \<open>The runs of the sections\<close>

lemma init_matrix_run:
  "init_matrix e \<lparr>trace = t, lastError = False, hostRow = h\<rparr> =
     (if fails e 93 0 then
        (Inl (Status (- 1)),
         \<lparr>trace = t @ [CudaMalloc MemMatrixDev False, CudaFree MemMatrixDev],
          lastError = False, hostRow = h\<rparr>)
      else if fails e 103 0 then
        (Inl (Status (- 1)),
         \<lparr>trace = t @ [CudaMalloc MemMatrixDev True, CudaMemset MemMatrixDev,
                       CudaFree MemMatrixDev],
          lastError = False, hostRow = h\<rparr>)
      else if fails e 114 0 then
        (Inl (Status (- 1)),
         \<lparr>trace = t @ [CudaMalloc MemMatrixDev True, CudaMemset MemMatrixDev,
                       Malloc StateHost False, CudaFree MemMatrixDev, Free StateHost],
          lastError = False, hostRow = h\<rparr>)
      else if fails e 127 0 then
        (Inl (Status (- 1)),
         \<lparr>trace = t @ [CudaMalloc MemMatrixDev True, CudaMemset MemMatrixDev,
                       Malloc StateHost True, Memset StateHost, CudaMalloc StateDev False,
                       CudaFree MemMatrixDev, Free StateHost, CudaFree StateDev],
          lastError = False, hostRow = h\<rparr>)
      else if fails e 140 0 then
        (Inl (Status (- 1)),
         \<lparr>trace = t @ [CudaMalloc MemMatrixDev True, CudaMemset MemMatrixDev,
                       Malloc StateHost True, Memset StateHost, CudaMalloc StateDev True,
                       CudaMemset StateDev,
                       Free StateHost, CudaFree StateDev, CudaFree MemMatrixDev],
          lastError = False, hostRow = h\<rparr>)
      else if fails e 154 0 then
        (Inl (Status (- 1)),
         \<lparr>trace = t @ [CudaMalloc MemMatrixDev True, CudaMemset MemMatrixDev,
                       Malloc StateHost True, Memset StateHost, CudaMalloc StateDev True,
                       CudaMemset StateDev, CudaMalloc RowADev False] @ unwind,
          lastError = False, hostRow = h\<rparr>)
      else if fails e 168 0 then
        (Inl (Status (- 1)),
         \<lparr>trace = t @ calls_init @ unwind, lastError = False, hostRow = h\<rparr>)
      else (Inr (), \<lparr>trace = t @ calls_init, lastError = False, hostRow = h\<rparr>))"
  by (simp add: init_matrix_def cudaGetLastError_def cudaMalloc_def cuda_def log_def malloc_def
      fail_with_def cleanup_def calls_init_def)

lemma get_padded_input_run:
  "get_padded_input m e pwd salt kLen pwdlen saltlen timeCost nRows nCols
       \<lparr>trace = t, lastError = False, hostRow = h\<rparr> =
     (if fails e 187 0 then
        (Inl (Status (- 1)),
         \<lparr>trace = t @ [Malloc MemMatrixHost False] @ unwind @ [Free MemMatrixHost],
          lastError = False, hostRow = h\<rparr>)
      else
        (case pad_input m pwd salt kLen pwdlen saltlen timeCost nRows nCols
                (replicate (nat (sint (ROW_LEN_BYTES m))) 0) of
           None \<Rightarrow>
             (Inl Undefined,
              \<lparr>trace = t @ [Malloc MemMatrixHost True, Memset MemMatrixHost],
               lastError = False, hostRow = replicate (nat (sint (ROW_LEN_BYTES m))) 0\<rparr>)
         | Some (nB, b) \<Rightarrow>
             if fails e 235 0 then
               (Inl (Status (- 1)),
                \<lparr>trace = t @ [Malloc MemMatrixHost True, Memset MemMatrixHost,
                              CudaMemcpyHostToDevice] @ unwind,
                 lastError = False, hostRow = b\<rparr>)
             else
               (Inr nB,
                \<lparr>trace = t @ [Malloc MemMatrixHost True, Memset MemMatrixHost,
                              CudaMemcpyHostToDevice, Memset MemMatrixHost],
                 lastError = False, hostRow = replicate (nat (sint (ROW_LEN_BYTES m))) 0\<rparr>)))"
  by (simp add: get_padded_input_def cudaGetLastError_def cuda_def log_def malloc_def
      fail_with_def cleanup_def memset_row_def split: option.split)

lemma wandering_phase_run:
  "wandering_phase e timeCost nRows \<lparr>trace = t, lastError = False, hostRow = h\<rparr> =
     (if fails e 298 0 then
        (Inl (Status (- 1)),
         \<lparr>trace = t @ [Wandering timeCost nRows] @ unwind, lastError = False, hostRow = h\<rparr>)
      else if fails e 313 0 then
        (Inl (Status (- 1)),
         \<lparr>trace = t @ [Wandering timeCost nRows, CudaMemcpyDeviceToHost] @ unwind,
          lastError = False, hostRow = h\<rparr>)
      else
        (Inr (rowa e),
         \<lparr>trace = t @ [Wandering timeCost nRows, CudaMemcpyDeviceToHost],
          lastError = False, hostRow = h\<rparr>))"
  by (simp add: wandering_phase_def cudaGetLastError_def cuda_def log_def fail_with_def
      cleanup_def)

lemma wrapup_phase_run:
  "wrapup_phase m e rowaCPU kLen \<lparr>trace = t, lastError = False, hostRow = h\<rparr> =
     (if fails e 330 0 then
        (Inl (Status (- 1)),
         \<lparr>trace = t @ [AbsorbBlock (rowaCPU * ROW_LEN_INT64 m)] @ unwind,
          lastError = False, hostRow = h\<rparr>)
      else
        (Inr (),
         \<lparr>trace = t @ [AbsorbBlock (rowaCPU * ROW_LEN_INT64 m), Squeeze kLen],
          lastError = fails e 346 0, hostRow = h\<rparr>))"
  by (simp add: wrapup_phase_def cudaGetLastError_def cuda_def log_def fail_with_def
      cleanup_def)

lemma free_memory_run:
  "free_memory e \<lparr>trace = t, lastError = l, hostRow = h\<rparr> =
     (if l \<or> fails e 350 0 \<or> fails e 352 0 then
        (Status (- 1),
         \<lparr>trace = t @ [CudaFree MemMatrixDev, CudaMemset StateDev, Free StateHost,
                       Free MemMatrixHost, CudaFree StateDev, CudaFree RowADev],
          lastError = False, hostRow = h\<rparr>)
      else
        (Status 0,
         \<lparr>trace = t @ [CudaFree MemMatrixDev, CudaMemset StateDev, CudaFree StateDev,
                       CudaFree RowADev, Free StateHost, Free MemMatrixHost],
          lastError = False, hostRow = h\<rparr>))"
  by (simp add: free_memory_def cudaGetLastError_def cuda_def log_def cleanup_def)

lemma of_nat_nat_sint:
  fixes i :: cint
  assumes "0 \<le> sint i"
  shows "of_nat (nat (sint i)) = i"
proof -
  have "(of_nat (nat (sint i)) :: cint) = of_int (sint i)"
    using assms by (rule of_nat_nat)
  also have "\<dots> = i" by simp
  finally show ?thesis .
qed

lemma sint_succ:
  fixes i n :: cint
  assumes "sint i < sint n"
  shows "sint (i + 1) = sint i + 1"
proof -
  have "sint n < 2 ^ (LENGTH(32) - 1)" by (rule sint_lt)
  then have hi: "sint i + 1 < 2 ^ 31" using assms by simp
  have "- (2 ^ (LENGTH(32) - 1)) \<le> sint i" by (rule sint_ge)
  then have lo: "- (2 ^ 31) \<le> sint i + 1" by simp
  show ?thesis using sint_add_nowrap [of i 1] hi lo by simp
qed

lemma block_absorbs_Cons:
  assumes "i < j"
  shows "block_absorbs m i j = AbsorbBlock (of_nat i * BLOCK_LEN_INT64 m) # block_absorbs m (Suc i) j"
  using assms by (simp add: block_absorbs_def upt_conv_Cons)

lemma block_absorbs_Nil:
  assumes "j \<le> i"
  shows "block_absorbs m i j = []"
  using assms by (simp add: block_absorbs_def)

lemma absorb_loop_run:
  assumes "0 \<le> sint i" and "ptrWord = i * BLOCK_LEN_INT64 m"
  shows "(\<exists>j. nat (sint i) \<le> j \<and> int j < sint nB \<and>
            absorb_loop m e nB i ptrWord \<lparr>trace = t, lastError = l, hostRow = h\<rparr> =
              (Inl (Status (- 1)),
               \<lparr>trace = t @ block_absorbs m (nat (sint i)) (Suc j) @ unwind,
                lastError = False, hostRow = h\<rparr>))
       \<or> absorb_loop m e nB i ptrWord \<lparr>trace = t, lastError = l, hostRow = h\<rparr> =
              (Inr (),
               \<lparr>trace = t @ block_absorbs m (nat (sint i)) (nat (sint nB)),
                lastError = (l \<and> \<not> i <s nB), hostRow = h\<rparr>)"
  using assms
proof (induction k \<equiv> "nat (sint nB - sint i)" arbitrary: i ptrWord t l)
  case 0
  then have nlt: "\<not> i <s nB" by (simp add: word_sless_alt)
  then have "nat (sint nB) \<le> nat (sint i)" by (simp add: word_sless_alt)
  then have "block_absorbs m (nat (sint i)) (nat (sint nB)) = []"
    by (rule block_absorbs_Nil)
  with nlt show ?case by simp
next
  case (Suc k)
  from Suc.hyps(2) have lt: "sint i < sint nB" by linarith
  then have iltn: "i <s nB" by (simp add: word_sless_alt)
  have i0: "0 \<le> sint i" by (rule Suc.prems(1))
  have ptr: "AbsorbBlock ptrWord = AbsorbBlock (of_nat (nat (sint i)) * BLOCK_LEN_INT64 m)"
    using Suc.prems(2) i0 by (simp add: of_nat_nat_sint)
  have nlt: "nat (sint i) < nat (sint nB)" using lt i0 by simp
  show ?case
  proof (cases "l \<or> fails e 261 (nat (sint i))")
    case True
    have "absorb_loop m e nB i ptrWord \<lparr>trace = t, lastError = l, hostRow = h\<rparr> =
            (Inl (Status (- 1)),
             \<lparr>trace = t @ block_absorbs m (nat (sint i)) (Suc (nat (sint i))) @ unwind,
              lastError = False, hostRow = h\<rparr>)"
      using True iltn ptr
      by (simp add: cudaGetLastError_def cuda_def log_def fail_with_def cleanup_def
          block_absorbs_Cons block_absorbs_Nil)
    moreover have "int (nat (sint i)) < sint nB" using lt i0 by simp
    ultimately show ?thesis by blast
  next
    case False
    let ?w = "\<lparr>trace = t @ [AbsorbBlock ptrWord], lastError = False, hostRow = h\<rparr>"
    have step: "absorb_loop m e nB i ptrWord \<lparr>trace = t, lastError = l, hostRow = h\<rparr> =
                  absorb_loop m e nB (i + 1) ((i + 1) * BLOCK_LEN_INT64 m) ?w"
      using False iltn
      by (simp add: cudaGetLastError_def cuda_def log_def)
    have s1: "sint (i + 1) = sint i + 1" using lt by (rule sint_succ)
    have n1: "nat (sint (i + 1)) = Suc (nat (sint i))" using s1 i0 by simp
    have k: "k = nat (sint nB - sint (i + 1))" using Suc.hyps(2) s1 by simp
    have i1: "0 \<le> sint (i + 1)" using s1 i0 by simp
    note IH = Suc.hyps(1) [OF k i1 refl, of "t @ [AbsorbBlock ptrWord]" False]
    from IH show ?thesis
    proof
      assume "\<exists>j. nat (sint (i + 1)) \<le> j \<and> int j < sint nB \<and>
          absorb_loop m e nB (i + 1) ((i + 1) * BLOCK_LEN_INT64 m) ?w =
            (Inl (Status (- 1)),
             \<lparr>trace = (t @ [AbsorbBlock ptrWord]) @ block_absorbs m (nat (sint (i + 1))) (Suc j) @ unwind,
              lastError = False, hostRow = h\<rparr>)"
      then obtain j where j: "nat (sint (i + 1)) \<le> j" "int j < sint nB"
        and r: "absorb_loop m e nB (i + 1) ((i + 1) * BLOCK_LEN_INT64 m) ?w =
            (Inl (Status (- 1)),
             \<lparr>trace = (t @ [AbsorbBlock ptrWord]) @ block_absorbs m (nat (sint (i + 1))) (Suc j) @ unwind,
              lastError = False, hostRow = h\<rparr>)" by blast
      have "block_absorbs m (nat (sint i)) (Suc j) =
              AbsorbBlock ptrWord # block_absorbs m (nat (sint (i + 1))) (Suc j)"
        using j(1) n1 ptr by (simp add: block_absorbs_Cons)
      then have "absorb_loop m e nB i ptrWord \<lparr>trace = t, lastError = l, hostRow = h\<rparr> =
            (Inl (Status (- 1)),
             \<lparr>trace = t @ block_absorbs m (nat (sint i)) (Suc j) @ unwind,
              lastError = False, hostRow = h\<rparr>)"
        using step r by simp
      moreover have "nat (sint i) \<le> j" using j(1) n1 by simp
      ultimately show ?thesis using j(2) by blast
    next
      assume r: "absorb_loop m e nB (i + 1) ((i + 1) * BLOCK_LEN_INT64 m) ?w =
            (Inr (),
             \<lparr>trace = (t @ [AbsorbBlock ptrWord]) @ block_absorbs m (nat (sint (i + 1))) (nat (sint nB)),
              lastError = (False \<and> \<not> i + 1 <s nB), hostRow = h\<rparr>)"
      have "block_absorbs m (nat (sint i)) (nat (sint nB)) =
              AbsorbBlock ptrWord # block_absorbs m (nat (sint (i + 1))) (nat (sint nB))"
        using nlt n1 ptr by (simp add: block_absorbs_Cons)
      then have "absorb_loop m e nB i ptrWord \<lparr>trace = t, lastError = l, hostRow = h\<rparr> =
            (Inr (),
             \<lparr>trace = t @ block_absorbs m (nat (sint i)) (nat (sint nB)),
              lastError = (l \<and> \<not> i <s nB), hostRow = h\<rparr>)"
        using step r iltn by simp
      then show ?thesis by blast
    qed
  qed
qed

lemma absorb_loop_Inr:
  assumes "0 \<le> sint i"
    and "absorb_loop m e nB i ptrWord \<lparr>trace = t, lastError = l, hostRow = h\<rparr> = (Inr u, w')"
  shows "(\<forall>j. nat (sint i) \<le> j \<and> int j < sint nB \<longrightarrow> \<not> fails e 261 j) \<and> (i <s nB \<longrightarrow> \<not> l)"
  using assms
proof (induction k \<equiv> "nat (sint nB - sint i)" arbitrary: i ptrWord t l)
  case 0
  then have "sint nB \<le> sint i" by simp
  with 0 show ?case by (auto simp: word_sless_alt)
next
  case (Suc k)
  from Suc.hyps(2) have lt: "sint i < sint nB" by linarith
  then have iltn: "i <s nB" by (simp add: word_sless_alt)
  have i0: "0 \<le> sint i" by (rule Suc.prems(1))
  have ok: "\<not> (l \<or> fails e 261 (nat (sint i)))"
  proof
    assume "l \<or> fails e 261 (nat (sint i))"
    then have "fst (absorb_loop m e nB i ptrWord \<lparr>trace = t, lastError = l, hostRow = h\<rparr>) =
                 Inl (Status (- 1))"
      using iltn by (simp add: cudaGetLastError_def cuda_def log_def fail_with_def)
    with Suc.prems(2) show False by simp
  qed
  let ?w = "\<lparr>trace = t @ [AbsorbBlock ptrWord], lastError = False, hostRow = h\<rparr>"
  have step: "absorb_loop m e nB i ptrWord \<lparr>trace = t, lastError = l, hostRow = h\<rparr> =
                absorb_loop m e nB (i + 1) ((i + 1) * BLOCK_LEN_INT64 m) ?w"
    using ok iltn by (simp add: cudaGetLastError_def cuda_def log_def)
  have s1: "sint (i + 1) = sint i + 1" using lt by (rule sint_succ)
  have n1: "nat (sint (i + 1)) = Suc (nat (sint i))" using s1 i0 by simp
  have k: "k = nat (sint nB - sint (i + 1))" using Suc.hyps(2) s1 by simp
  have i1: "0 \<le> sint (i + 1)" using s1 i0 by simp
  have r: "absorb_loop m e nB (i + 1) ((i + 1) * BLOCK_LEN_INT64 m) ?w = (Inr u, w')"
    using step Suc.prems(2) by simp
  have IH: "\<forall>j. nat (sint (i + 1)) \<le> j \<and> int j < sint nB \<longrightarrow> \<not> fails e 261 j"
    using Suc.hyps(1) [OF k i1 r] by blast
  have "\<not> fails e 261 j" if "nat (sint i) \<le> j \<and> int j < sint nB" for j
  proof (cases "j = nat (sint i)")
    case True
    then show ?thesis using ok by simp
  next
    case False
    with that have "nat (sint (i + 1)) \<le> j \<and> int j < sint nB" using n1 by simp
    then show ?thesis using IH by blast
  qed
  then show ?case using ok by blast
qed

section \<open>The exits of LYRA2\<close>

lemma setup_phase_run:
  "setup_phase m e nRows \<lparr>trace = t, lastError = l, hostRow = h\<rparr> =
     (if l \<or> fails e 279 0 \<or> fails e 281 0 \<or> fails e 283 0 then
        (Inl (Status (- 1)),
         \<lparr>trace = t @ [ReducedSqueezeRow 0, ReducedSqueezeRow (ROW_LEN_INT64 m),
                       SetupGPU nRows] @ unwind,
          lastError = False, hostRow = h\<rparr>)
      else
        (Inr (),
         \<lparr>trace = t @ [ReducedSqueezeRow 0, ReducedSqueezeRow (ROW_LEN_INT64 m),
                       SetupGPU nRows],
          lastError = False, hostRow = h\<rparr>))"
  by (simp add: setup_phase_def cudaGetLastError_def cuda_def log_def fail_with_def cleanup_def)

lemma neutral_block_absorbs: "list_all neutral (block_absorbs m i j)"
  by (simp add: block_absorbs_def list_all_iff)

lemma pad_input_nB:
  assumes "pad_input m pwd salt kLen pwdlen saltlen timeCost nRows nCols buf = Some (nB, b)"
  shows "nB = nBlocksInput m pwdlen saltlen"
  using assms
  by (auto simp: pad_input_def Let_def split: if_splits Option.bind_splits)

lemma LYRA2_exits:
  assumes run: "LYRA2 m e kLen pwd pwdlen salt saltlen timeCost nRows nCols fresh = (out, w)"
  shows "(out = Status (- 1) \<and> trace w \<in> set early_exits)
       \<or> (out = Undefined \<and>
            trace w = calls_init @ [Malloc MemMatrixHost True, Memset MemMatrixHost])
       \<or> (out = Status (- 1) \<and>
            (\<exists>t. list_all neutral t \<and>
                 trace w = calls_init @ Malloc MemMatrixHost True # t @ unwind))
       \<or> (out = Status (- 1) \<and> (fails e 346 0 \<or> fails e 350 0 \<or> fails e 352 0) \<and>
            trace w = calls_init @ Malloc MemMatrixHost True #
              main_calls m e pwdlen saltlen timeCost nRows @
              [Squeeze kLen, CudaFree MemMatrixDev, CudaMemset StateDev, Free StateHost,
               Free MemMatrixHost, CudaFree StateDev, CudaFree RowADev])
       \<or> (out = Status 0 \<and> \<not> engine_failed m e pwdlen saltlen \<and>
            trace w = calls_init @ Malloc MemMatrixHost True #
              main_calls m e pwdlen saltlen timeCost nRows @
              [Squeeze kLen, CudaFree MemMatrixDev, CudaMemset StateDev, CudaFree StateDev,
               CudaFree RowADev, Free StateHost, Free MemMatrixHost])"
proof (cases "ROW_LEN_BYTES m <s pwdlen + saltlen")
  case True
  with run have "out = Status (- 1)" and "w = fresh" by (simp_all add: LYRA2_def)
  then show ?thesis by (simp add: fresh_def early_exits_def)
next
  case guard: False
  let ?Z = "replicate (nat (sint (ROW_LEN_BYTES m))) (0 :: byte)"
  show ?thesis
  proof (cases "fails e 93 0 \<or> fails e 103 0 \<or> fails e 114 0 \<or> fails e 127 0 \<or>
                fails e 140 0 \<or> fails e 154 0 \<or> fails e 168 0")
    case True
    with run guard have "out = Status (- 1) \<and> trace w \<in> set early_exits"
      by (auto simp: LYRA2_def fresh_def init_matrix_run early_exits_def split: if_splits)
    then show ?thesis by blast
  next
    case False
    then have r1: "init_matrix e fresh =
                     (Inr (), \<lparr>trace = calls_init, lastError = False, hostRow = []\<rparr>)"
      by (simp add: fresh_def init_matrix_run)
    let ?pad = "get_padded_input m e pwd salt kLen pwdlen saltlen timeCost nRows nCols
                  \<lparr>trace = calls_init, lastError = False, hostRow = []\<rparr>"
    show ?thesis
    proof (cases "fails e 187 0")
      case True
      with run guard r1 have "out = Status (- 1) \<and> trace w \<in> set early_exits"
        by (auto simp: LYRA2_def get_padded_input_run early_exits_def)
      then show ?thesis by blast
    next
      case m187: False
      show ?thesis
      proof (cases "pad_input m pwd salt kLen pwdlen saltlen timeCost nRows nCols ?Z")
        case None
        with run guard r1 m187 have "out = Undefined \<and>
            trace w = calls_init @ [Malloc MemMatrixHost True, Memset MemMatrixHost]"
          by (auto simp: LYRA2_def get_padded_input_run)
        then show ?thesis by blast
      next
        case (Some nb)
        obtain nB b where nb: "nb = (nB, b)" by (cases nb)
        have nB: "nB = nBlocksInput m pwdlen saltlen"
          using Some nb pad_input_nB by blast
        show ?thesis
        proof (cases "fails e 235 0")
          case True
          with run guard r1 m187 Some nb have "out = Status (- 1)" and
            "trace w = calls_init @ Malloc MemMatrixHost True #
                [Memset MemMatrixHost, CudaMemcpyHostToDevice] @ unwind"
            by (auto simp: LYRA2_def get_padded_input_run)
          moreover have "list_all neutral [Memset MemMatrixHost, CudaMemcpyHostToDevice]"
            by simp
          ultimately show ?thesis by blast
        next
          case c235: False
          let ?T2 = "calls_init @ [Malloc MemMatrixHost True, Memset MemMatrixHost,
                       CudaMemcpyHostToDevice, Memset MemMatrixHost]"
          have r2: "?pad = (Inr nB, \<lparr>trace = ?T2, lastError = False, hostRow = ?Z\<rparr>)"
            using m187 Some nb c235 by (simp add: get_padded_input_run)
          let ?n = "nat (sint nB)"
          have a0: "absorb_input m e nB \<lparr>trace = ?T2, lastError = False, hostRow = ?Z\<rparr> =
                      absorb_loop m e nB 0 0
                        \<lparr>trace = ?T2 @ [InitState], lastError = fails e 252 0, hostRow = ?Z\<rparr>"
            by (simp add: absorb_input_def cuda_def log_def)
          have "(\<exists>j. nat (sint (0 :: cint)) \<le> j \<and> int j < sint nB \<and>
                  absorb_loop m e nB 0 0
                    \<lparr>trace = ?T2 @ [InitState], lastError = fails e 252 0, hostRow = ?Z\<rparr> =
                  (Inl (Status (- 1)),
                   \<lparr>trace = (?T2 @ [InitState]) @ block_absorbs m (nat (sint (0 :: cint))) (Suc j)
                              @ unwind,
                    lastError = False, hostRow = ?Z\<rparr>))
             \<or> absorb_loop m e nB 0 0
                  \<lparr>trace = ?T2 @ [InitState], lastError = fails e 252 0, hostRow = ?Z\<rparr> =
                (Inr (),
                 \<lparr>trace = (?T2 @ [InitState]) @ block_absorbs m (nat (sint (0 :: cint))) ?n,
                  lastError = (fails e 252 0 \<and> \<not> 0 <s nB), hostRow = ?Z\<rparr>)"
            by (rule absorb_loop_run) simp_all
          then show ?thesis
          proof
            assume "\<exists>j. nat (sint (0 :: cint)) \<le> j \<and> int j < sint nB \<and>
                  absorb_loop m e nB 0 0
                    \<lparr>trace = ?T2 @ [InitState], lastError = fails e 252 0, hostRow = ?Z\<rparr> =
                  (Inl (Status (- 1)),
                   \<lparr>trace = (?T2 @ [InitState]) @ block_absorbs m (nat (sint (0 :: cint))) (Suc j)
                              @ unwind,
                    lastError = False, hostRow = ?Z\<rparr>)"
            then obtain j where
              r3: "absorb_loop m e nB 0 0
                    \<lparr>trace = ?T2 @ [InitState], lastError = fails e 252 0, hostRow = ?Z\<rparr> =
                  (Inl (Status (- 1)),
                   \<lparr>trace = (?T2 @ [InitState]) @ block_absorbs m (nat (sint (0 :: cint))) (Suc j)
                              @ unwind,
                    lastError = False, hostRow = ?Z\<rparr>)" by blast
            from run guard r1 r2 a0 r3 have "out = Status (- 1)" and
              "trace w = calls_init @ Malloc MemMatrixHost True #
                 ([Memset MemMatrixHost, CudaMemcpyHostToDevice, Memset MemMatrixHost,
                   InitState] @ block_absorbs m 0 (Suc j)) @ unwind"
              by (auto simp: LYRA2_def)
            moreover have "list_all neutral
                ([Memset MemMatrixHost, CudaMemcpyHostToDevice, Memset MemMatrixHost,
                   InitState] @ block_absorbs m 0 (Suc j))"
              using neutral_block_absorbs [of m 0 "Suc j"] by simp
            ultimately show ?thesis by blast
          next
            let ?T3 = "?T2 @ [InitState] @ block_absorbs m 0 ?n"
            let ?l3 = "fails e 252 0 \<and> \<not> 0 <s nB"
            assume loop: "absorb_loop m e nB 0 0
                  \<lparr>trace = ?T2 @ [InitState], lastError = fails e 252 0, hostRow = ?Z\<rparr> =
                (Inr (),
                 \<lparr>trace = (?T2 @ [InitState]) @ block_absorbs m (nat (sint (0 :: cint))) ?n,
                  lastError = (fails e 252 0 \<and> \<not> 0 <s nB), hostRow = ?Z\<rparr>)"
            have "(\<forall>j. nat (sint (0 :: cint)) \<le> j \<and> int j < sint nB \<longrightarrow> \<not> fails e 261 j)
                    \<and> (0 <s nB \<longrightarrow> \<not> fails e 252 0)"
              by (rule absorb_loop_Inr [OF _ loop]) simp
            then have f261: "\<not> list_ex (\<lambda>i. fails e 261 i) [0..<?n]"
              and f252: "0 <s nB \<longrightarrow> \<not> fails e 252 0"
              by (auto simp: list_ex_iff)
            from loop have r3: "absorb_input m e nB \<lparr>trace = ?T2, lastError = False, hostRow = ?Z\<rparr> =
                (Inr (), \<lparr>trace = ?T3, lastError = ?l3, hostRow = ?Z\<rparr>)"
              using a0 by simp
            have nT3: "list_all neutral
                ([Memset MemMatrixHost, CudaMemcpyHostToDevice, Memset MemMatrixHost,
                   InitState] @ block_absorbs m 0 ?n)"
              using neutral_block_absorbs [of m 0 ?n] by simp
            let ?S = "[ReducedSqueezeRow 0, ReducedSqueezeRow (ROW_LEN_INT64 m), SetupGPU nRows]"
            show ?thesis
            proof (cases "?l3 \<or> fails e 279 0 \<or> fails e 281 0 \<or> fails e 283 0")
              case True
              with run guard r1 r2 r3 have "out = Status (- 1)" and
                "trace w = calls_init @ Malloc MemMatrixHost True #
                   ([Memset MemMatrixHost, CudaMemcpyHostToDevice, Memset MemMatrixHost,
                     InitState] @ block_absorbs m 0 ?n @ ?S) @ unwind"
                by (auto simp: LYRA2_def setup_phase_run)
              moreover have "list_all neutral
                  ([Memset MemMatrixHost, CudaMemcpyHostToDevice, Memset MemMatrixHost,
                     InitState] @ block_absorbs m 0 ?n @ ?S)"
                using nT3 by simp
              ultimately show ?thesis by blast
            next
              case s: False
              then have r4: "setup_phase m e nRows \<lparr>trace = ?T3, lastError = ?l3, hostRow = ?Z\<rparr> =
                   (Inr (), \<lparr>trace = ?T3 @ ?S, lastError = False, hostRow = ?Z\<rparr>)"
                by (simp add: setup_phase_run)
              show ?thesis
              proof (cases "fails e 298 0 \<or> fails e 313 0")
                case True
                with run guard r1 r2 r3 r4 have "out = Status (- 1)" and
                  "trace w = calls_init @ Malloc MemMatrixHost True #
                     ([Memset MemMatrixHost, CudaMemcpyHostToDevice, Memset MemMatrixHost,
                       InitState] @ block_absorbs m 0 ?n @ ?S @ [Wandering timeCost nRows]) @ unwind
                 \<or> trace w = calls_init @ Malloc MemMatrixHost True #
                     ([Memset MemMatrixHost, CudaMemcpyHostToDevice, Memset MemMatrixHost,
                       InitState] @ block_absorbs m 0 ?n @ ?S @
                       [Wandering timeCost nRows, CudaMemcpyDeviceToHost]) @ unwind"
                  by (auto simp: LYRA2_def wandering_phase_run split: if_splits)
                moreover have "list_all neutral
                     ([Memset MemMatrixHost, CudaMemcpyHostToDevice, Memset MemMatrixHost,
                       InitState] @ block_absorbs m 0 ?n @ ?S @ [Wandering timeCost nRows])"
                  and "list_all neutral
                     ([Memset MemMatrixHost, CudaMemcpyHostToDevice, Memset MemMatrixHost,
                       InitState] @ block_absorbs m 0 ?n @ ?S @
                       [Wandering timeCost nRows, CudaMemcpyDeviceToHost])"
                  using nT3 by simp_all
                ultimately show ?thesis by blast
              next
                case wd: False
                let ?T5 = "?T3 @ ?S @ [Wandering timeCost nRows, CudaMemcpyDeviceToHost]"
                have r5: "wandering_phase e timeCost nRows
                            \<lparr>trace = ?T3 @ ?S, lastError = False, hostRow = ?Z\<rparr> =
                          (Inr (rowa e), \<lparr>trace = ?T5, lastError = False, hostRow = ?Z\<rparr>)"
                  using wd by (simp add: wandering_phase_run)
                show ?thesis
                proof (cases "fails e 330 0")
                  case True
                  with run guard r1 r2 r3 r4 r5 have "out = Status (- 1)" and
                    "trace w = calls_init @ Malloc MemMatrixHost True #
                       ([Memset MemMatrixHost, CudaMemcpyHostToDevice, Memset MemMatrixHost,
                         InitState] @ block_absorbs m 0 ?n @ ?S @
                         [Wandering timeCost nRows, CudaMemcpyDeviceToHost,
                          AbsorbBlock (rowa e * ROW_LEN_INT64 m)]) @ unwind"
                    by (auto simp: LYRA2_def wrapup_phase_run)
                  moreover have "list_all neutral
                       ([Memset MemMatrixHost, CudaMemcpyHostToDevice, Memset MemMatrixHost,
                         InitState] @ block_absorbs m 0 ?n @ ?S @
                         [Wandering timeCost nRows, CudaMemcpyDeviceToHost,
                          AbsorbBlock (rowa e * ROW_LEN_INT64 m)])"
                    using nT3 by simp
                  ultimately show ?thesis by blast
                next
                  case wr: False
                  let ?T6 = "?T5 @ [AbsorbBlock (rowa e * ROW_LEN_INT64 m), Squeeze kLen]"
                  have r6: "wrapup_phase m e (rowa e) kLen
                              \<lparr>trace = ?T5, lastError = False, hostRow = ?Z\<rparr> =
                            (Inr (), \<lparr>trace = ?T6, lastError = fails e 346 0, hostRow = ?Z\<rparr>)"
                    using wr by (simp add: wrapup_phase_run)
                  have all: "LYRA2 m e kLen pwd pwdlen salt saltlen timeCost nRows nCols fresh =
                               free_memory e \<lparr>trace = ?T6, lastError = fails e 346 0, hostRow = ?Z\<rparr>"
                    using guard r1 r2 r3 r4 r5 r6 by (simp add: LYRA2_def)
                  have T6: "?T6 = calls_init @ Malloc MemMatrixHost True #
                              main_calls m e pwdlen saltlen timeCost nRows @ [Squeeze kLen]"
                    by (simp add: main_calls_def nB)
                  show ?thesis
                  proof (cases "fails e 346 0 \<or> fails e 350 0 \<or> fails e 352 0")
                    case True
                    with run all have "out = Status (- 1)" and
                      "trace w = ?T6 @ [CudaFree MemMatrixDev, CudaMemset StateDev, Free StateHost,
                         Free MemMatrixHost, CudaFree StateDev, CudaFree RowADev]"
                      by (auto simp: free_memory_run)
                    with True show ?thesis unfolding T6 by simp
                  next
                    case False
                    with run all have "out = Status 0" and
                      "trace w = ?T6 @ [CudaFree MemMatrixDev, CudaMemset StateDev,
                         CudaFree StateDev, CudaFree RowADev, Free StateHost, Free MemMatrixHost]"
                      by (auto simp: free_memory_run)
                    moreover have "\<not> engine_failed m e pwdlen saltlen"
                      using f261 f252 s wd wr False unfolding engine_failed_def nB by blast
                    ultimately show ?thesis unfolding T6 by simp
                  qed
                qed
              qed
            qed
          qed
        qed
      qed
    qed
  qed
qed

section \<open>The padded row, byte by byte\<close>




section \<open>When the padded input is defined\<close>

lemma memcpy_Some:
  assumes "memcpy dst off src n = Some b"
  shows "0 \<le> off \<and> 0 \<le> n \<and> off + n \<le> int (length dst) \<and> n \<le> int (length src)
         \<and> length b = length dst"
  using assms by (auto simp: memcpy_def split: if_splits)

lemma poke_Some:
  assumes "poke buf off f = Some b"
  shows "0 \<le> off \<and> off < int (length buf) \<and> length b = length buf"
  using assms by (auto simp: poke_def split: if_splits)

lemma sint_of_int_wrap:
  assumes "0 \<le> k" and "k < 2 ^ 32" and "0 \<le> sint (word_of_int k :: cint)"
  shows "sint (word_of_int k :: cint) = k \<and> k < 2 ^ 31"
proof (cases "k < 2 ^ 31")
  case True
  have "sint (word_of_int k :: cint) = signed_take_bit (LENGTH(32) - 1) k"
    by (rule sint_sbintrunc')
  also have "\<dots> = k"
    using True assms(1) by (intro signed_take_bit_int_eq_self) simp_all
  finally show ?thesis using True by simp
next
  case False
  have "sint (word_of_int k :: cint) = (k + 2 ^ (LENGTH(32) - 1)) mod 2 ^ LENGTH(32) - 2 ^ (LENGTH(32) - 1)"
    by (rule int_word_sint)
  also have "\<dots> = (k + 2 ^ 31) mod 2 ^ 32 - 2 ^ 31" by simp
  also have "(k + 2 ^ 31) mod 2 ^ 32 = k - 2 ^ 31"
  proof -
    have "k + 2 ^ 31 = (k - 2 ^ 31) + 2 ^ 32" by simp
    then have "(k + 2 ^ 31) mod 2 ^ 32 = ((k - 2 ^ 31) + 2 ^ 32) mod 2 ^ 32" by (rule arg_cong)
    also have "\<dots> = (k - 2 ^ 31) mod 2 ^ 32" by (rule mod_add_self2)
    also have "\<dots> = k - 2 ^ 31"
      using False assms(2) by (intro mod_pos_pos_trivial) simp_all
    finally show ?thesis .
  qed
  finally have "sint (word_of_int k :: cint) = k - 2 ^ 32" by simp
  with assms(2,3) show ?thesis by simp
qed

lemma pad_input_Some_facts:
  assumes ok: "pad_input m pwd salt kLen pwdlen saltlen timeCost nRows nCols Z = Some (nB, buf)"
  shows "BLOCK_LEN_BYTES m \<noteq> 0 \<and> 0 \<le> sint pwdlen \<and> sint pwdlen \<le> int (length pwd)
       \<and> 0 \<le> sint saltlen \<and> sint saltlen \<le> int (length salt)
       \<and> sint pwdlen + sint saltlen + 24 < int (length Z)
       \<and> 0 \<le> sint (nBlocksInput m pwdlen saltlen * BLOCK_LEN_BYTES m - 1)
       \<and> sint (nBlocksInput m pwdlen saltlen * BLOCK_LEN_BYTES m - 1) < int (length Z)"
proof -
  from ok have Bnz: "BLOCK_LEN_BYTES m \<noteq> 0"
    by (auto simp: pad_input_def split: if_splits)
  from ok Bnz obtain b1 b2 b3 b4 b5 b6 b7 b8 b9 b10 where
    c1: "memcpy Z 0 pwd (sint pwdlen) = Some b1" and
    c2: "memcpy b1 (0 + sint pwdlen) salt (sint saltlen) = Some b2" and
    c3: "memcpy b2 (0 + sint pwdlen + sint saltlen) (int_bytes kLen) 4 = Some b3" and
    c4: "memcpy b3 (0 + sint pwdlen + sint saltlen + 4) (int_bytes pwdlen) 4 = Some b4" and
    c5: "memcpy b4 (0 + sint pwdlen + sint saltlen + 4 + 4) (int_bytes saltlen) 4 = Some b5" and
    c6: "memcpy b5 (0 + sint pwdlen + sint saltlen + 4 + 4 + 4) (int_bytes timeCost) 4 = Some b6" and
    c7: "memcpy b6 (0 + sint pwdlen + sint saltlen + 4 + 4 + 4 + 4) (int_bytes nRows) 4 = Some b7" and
    c8: "memcpy b7 (0 + sint pwdlen + sint saltlen + 4 + 4 + 4 + 4 + 4) (int_bytes nCols) 4 = Some b8" and
    c9: "poke b8 (0 + sint pwdlen + sint saltlen + 4 + 4 + 4 + 4 + 4 + 4) (\<lambda>_. 0x80) = Some b9" and
    c10: "poke b9 (sint (nBlocksInput m pwdlen saltlen * BLOCK_LEN_BYTES m - 1)) (\<lambda>v. v XOR 0x01)
            = Some b10"
    unfolding pad_input_def Let_def sizeof_int_def
    by (auto simp: bind_eq_Some_conv)
  note m = memcpy_Some [OF c1] memcpy_Some [OF c2] memcpy_Some [OF c3] memcpy_Some [OF c4]
    memcpy_Some [OF c5] memcpy_Some [OF c6] memcpy_Some [OF c7] memcpy_Some [OF c8]
    poke_Some [OF c9] poke_Some [OF c10]
  from m have len: "length b8 = length Z" "length b9 = length Z" by simp_all
  from m(1) have p: "0 \<le> sint pwdlen" "sint pwdlen \<le> int (length pwd)" by simp_all
  from m(2) have s: "0 \<le> sint saltlen" "sint saltlen \<le> int (length salt)" by simp_all
  from m(9) len have L: "sint pwdlen + sint saltlen + 24 < int (length Z)" by simp
  from m(10) len have E: "0 \<le> sint (nBlocksInput m pwdlen saltlen * BLOCK_LEN_BYTES m - 1)"
    "sint (nBlocksInput m pwdlen saltlen * BLOCK_LEN_BYTES m - 1) < int (length Z)" by simp_all
  from Bnz p s L E show ?thesis by blast
qed

lemma uint_scast_neg:
  fixes a :: cint
  assumes "sint a < 0"
  shows "uint (scast a :: size_t) = sint a + 2 ^ 64"
proof -
  have lo: "- (2 ^ (LENGTH(32) - 1)) \<le> sint a" by (rule sint_ge)
  have "uint (scast a :: size_t) = sint a mod 2 ^ LENGTH(64)"
    unfolding scast_eq by (rule uint_word_of_int)
  also have "\<dots> = (sint a + 2 ^ 64) mod 2 ^ 64" by simp
  also have "\<dots> = sint a + 2 ^ 64"
    using lo assms by (intro mod_pos_pos_trivial) simp_all
  finally show ?thesis .
qed

lemma nBlocksInput_negative_block:
  assumes p: "0 \<le> sint pwdlen" and s: "0 \<le> sint saltlen"
    and nov: "sint pwdlen + sint saltlen + 24 < 2 ^ 31"
    and B: "sint (BLOCK_LEN_BYTES m) < 0"
  shows "nBlocksInput m pwdlen saltlen = 1"
proof -
  let ?S = "sint pwdlen + sint saltlen"
  let ?B = "BLOCK_LEN_BYTES m"
  let ?x = "scast (saltlen + pwdlen) :: size_t"
  have sum: "sint (saltlen + pwdlen) = ?S"
    using p s nov sint_add_nowrap [of saltlen pwdlen] by simp
  have a: "uint ?x = ?S"
    using p s by (simp add: uint_scast_nonneg sum)
  have u24: "uint (24 :: size_t) = 24" by simp
  have b: "uint (?x + 24) = ?S + 24"
    using nov a u24 uint_add_small [of ?x 24] by simp
  have c: "uint (scast ?B :: size_t) = sint ?B + 2 ^ 64"
    using B by (rule uint_scast_neg)
  have lo: "- (2 ^ (LENGTH(32) - 1)) \<le> sint ?B" by (rule sint_ge)
  have "uint ((?x + 24) div scast ?B) = (?S + 24) div (sint ?B + 2 ^ 64)"
    by (simp only: uint_div b c)
  also have "\<dots> = 0"
    using p s nov lo by (intro div_pos_pos_trivial) simp_all
  finally have "(?x + 24) div scast ?B = 0"
    by (simp add: word_uint_eq_iff)
  then show ?thesis by (simp add: nBlocksInput_def)
qed

lemma pad_input_Some_fits:
  assumes ok: "pad_input m pwd salt kLen pwdlen saltlen timeCost nRows nCols
                 (replicate (nat (sint (ROW_LEN_BYTES m))) 0) = Some (nB, buf)"
  shows "0 < sint (BLOCK_LEN_BYTES m)
       \<and> 0 \<le> sint pwdlen \<and> sint pwdlen \<le> int (length pwd)
       \<and> 0 \<le> sint saltlen \<and> sint saltlen \<le> int (length salt)
       \<and> ((sint pwdlen + sint saltlen + 24) div sint (BLOCK_LEN_BYTES m) + 1)
            * sint (BLOCK_LEN_BYTES m) \<le> sint (ROW_LEN_BYTES m)"
proof -
  let ?Bw = "BLOCK_LEN_BYTES m"
  let ?B = "sint ?Bw" and ?R = "sint (ROW_LEN_BYTES m)"
  let ?L = "sint pwdlen + sint saltlen + 24"
  let ?n = "nBlocksInput m pwdlen saltlen"
  note f = pad_input_Some_facts [OF ok]
  have Bnz: "?Bw \<noteq> 0" and p: "0 \<le> sint pwdlen" "sint pwdlen \<le> int (length pwd)"
    and s: "0 \<le> sint saltlen" "sint saltlen \<le> int (length salt)"
    using f by simp_all
  have LR: "?L < int (nat ?R)" using f by simp
  then have R0: "int (nat ?R) = ?R" using p s by (cases "0 \<le> ?R") simp_all
  have E0: "0 \<le> sint (?n * ?Bw - 1)" and ER: "sint (?n * ?Bw - 1) < ?R"
    using f R0 by simp_all
  have Rlt: "?R < 2 ^ 31" using sint_lt [of "ROW_LEN_BYTES m"] by simp
  have L31: "?L < 2 ^ 31" using LR R0 Rlt by linarith
  have Bpos: "0 < ?B"
  proof (rule ccontr)
    assume "\<not> 0 < ?B"
    moreover have "?B \<noteq> 0"
    proof
      assume "?B = 0"
      then have "word_of_int ?B = (word_of_int 0 :: cint)" by (rule arg_cong)
      then have "?Bw = 0" by simp
      with Bnz show False ..
    qed
    ultimately have neg: "?B < 0" by linarith
    have n1: "?n = 1" using p(1) s(1) L31 neg by (rule nBlocksInput_negative_block)
    show False
    proof (cases "- (2 ^ 31) < ?B")
      case True
      then have "sint (?Bw - 1) = ?B - 1" by (rule sint_pred_nowrap)
      with E0 neg n1 show False by simp
    next
      case False
      have "- (2 ^ (LENGTH(32) - 1)) \<le> ?B" by (rule sint_ge)
      with False have "?B = - (2 ^ 31)" by simp
      then have "word_of_int ?B = (word_of_int (- (2 ^ 31)) :: cint)" by simp
      then have "?Bw = - (2 ^ 31)" by simp
      then have "sint (?n * ?Bw - 1) = 2 ^ 31 - 1" using n1 by simp
      with ER Rlt show False by simp
    qed
  qed
  have q0: "0 \<le> ?L div ?B" using p s Bpos by (simp add: pos_imp_zdiv_nonneg_iff)
  have qL: "?L div ?B * ?B \<le> ?L"
  proof -
    have "?L div ?B * ?B + ?L mod ?B = ?L" by (rule div_mult_mod_eq)
    moreover have "0 \<le> ?L mod ?B" using Bpos by simp
    ultimately show ?thesis by linarith
  qed
  have qle: "?L div ?B \<le> ?L"
  proof -
    have "?L div ?B * 1 \<le> ?L div ?B * ?B" using q0 Bpos by (intro mult_left_mono) simp_all
    with qL show ?thesis by simp
  qed
  have nv: "sint ?n = ?L div ?B + 1"
    using p(1) s(1) Bpos L31 qle LR R0 Rlt by (intro nBlocksInput_sint) simp_all
  let ?N = "(?L div ?B + 1) * ?B"
  have N1: "1 \<le> ?N"
  proof -
    have "1 * 1 \<le> (?L div ?B + 1) * ?B" using q0 Bpos by (intro mult_mono) simp_all
    then show ?thesis by simp
  qed
  have Blt: "?B < 2 ^ 31" using sint_lt [of ?Bw] by simp
  define Q where "Q = ?L div ?B * ?B"
  have NLB: "?N = Q + ?B" by (simp add: algebra_simps Q_def)
  have QL: "Q \<le> ?L" using qL by (simp add: Q_def)
  have "Q + ?B - 1 < 2 ^ 32" using QL L31 Blt by simp
  then have N32: "?N - 1 < 2 ^ 32" by (simp only: NLB)
  have w: "?n * ?Bw - 1 = (word_of_int (?N - 1) :: cint)"
    using nv by (simp flip: nv)
  have "sint (word_of_int (?N - 1) :: cint) = ?N - 1 \<and> ?N - 1 < 2 ^ 31"
    using N1 N32 E0 unfolding w by (intro sint_of_int_wrap) simp_all
  then have "?N - 1 < ?R" using ER unfolding w by simp
  then have "?N \<le> ?R" by simp
  with Bpos p s show ?thesis by blast
qed

text \<open>
  The writes of lines 207 to 232 stay inside \<open>MemMatrixHost\<close> exactly when the lengths
  are lengths of the objects given and the reserved blocks fit the row.
\<close>

lemma pad_input_defined_iff:
  fixes kLen timeCost nRows nCols :: cint
  shows "(\<exists>nB buf. pad_input m pwd salt kLen pwdlen saltlen timeCost nRows nCols
                    (replicate (nat (sint (ROW_LEN_BYTES m))) 0) = Some (nB, buf))
     \<longleftrightarrow> (0 < sint (BLOCK_LEN_BYTES m)
          \<and> 0 \<le> sint pwdlen \<and> sint pwdlen \<le> int (length pwd)
          \<and> 0 \<le> sint saltlen \<and> sint saltlen \<le> int (length salt)
          \<and> ((sint pwdlen + sint saltlen + 24) div sint (BLOCK_LEN_BYTES m) + 1)
               * sint (BLOCK_LEN_BYTES m) \<le> sint (ROW_LEN_BYTES m))"
proof
  assume "\<exists>nB buf. pad_input m pwd salt kLen pwdlen saltlen timeCost nRows nCols
                    (replicate (nat (sint (ROW_LEN_BYTES m))) 0) = Some (nB, buf)"
  then obtain nB buf where
    "pad_input m pwd salt kLen pwdlen saltlen timeCost nRows nCols
       (replicate (nat (sint (ROW_LEN_BYTES m))) 0) = Some (nB, buf)" by blast
  then show "0 < sint (BLOCK_LEN_BYTES m)
          \<and> 0 \<le> sint pwdlen \<and> sint pwdlen \<le> int (length pwd)
          \<and> 0 \<le> sint saltlen \<and> sint saltlen \<le> int (length salt)
          \<and> ((sint pwdlen + sint saltlen + 24) div sint (BLOCK_LEN_BYTES m) + 1)
               * sint (BLOCK_LEN_BYTES m) \<le> sint (ROW_LEN_BYTES m)"
    by (rule pad_input_Some_fits)
next
  assume a: "0 < sint (BLOCK_LEN_BYTES m)
          \<and> 0 \<le> sint pwdlen \<and> sint pwdlen \<le> int (length pwd)
          \<and> 0 \<le> sint saltlen \<and> sint saltlen \<le> int (length salt)
          \<and> ((sint pwdlen + sint saltlen + 24) div sint (BLOCK_LEN_BYTES m) + 1)
               * sint (BLOCK_LEN_BYTES m) \<le> sint (ROW_LEN_BYTES m)"
  then have "0 < sint (BLOCK_LEN_BYTES m)" "0 \<le> sint pwdlen" "sint pwdlen \<le> int (length pwd)"
    "0 \<le> sint saltlen" "sint saltlen \<le> int (length salt)"
    "((sint pwdlen + sint saltlen + 24) div sint (BLOCK_LEN_BYTES m) + 1)
               * sint (BLOCK_LEN_BYTES m) \<le> sint (ROW_LEN_BYTES m)"
    by simp_all
  from pad_input_fits(1) [OF this]
  show "\<exists>nB buf. pad_input m pwd salt kLen pwdlen saltlen timeCost nRows nCols
                    (replicate (nat (sint (ROW_LEN_BYTES m))) 0) = Some (nB, buf)"
    by blast
qed

section \<open>Traces of the exits\<close>

lemma acquired_append: "acquired (a @ b) = acquired a @ acquired b"
  by (simp add: acquired_def)

lemma freed_append: "freed (a @ b) = freed a @ freed b"
  by (simp add: freed_def)

lemma acquired_Cons: "acquired (c # t) = acquires c @ acquired t"
  by (simp add: acquired_def)

lemma freed_Cons: "freed (c # t) = frees c @ freed t"
  by (simp add: freed_def)

lemma acquired_Nil: "acquired [] = []"
  by (simp add: acquired_def)

lemma freed_Nil: "freed [] = []"
  by (simp add: freed_def)

lemma neutral_acquired: "list_all neutral t \<Longrightarrow> acquired t = []"
proof (induction t)
  case Nil
  then show ?case by (simp add: acquired_def)
next
  case (Cons c t)
  then show ?case by (cases c) (simp_all add: acquired_Cons)
qed

lemma neutral_freed: "list_all neutral t \<Longrightarrow> freed t = []"
proof (induction t)
  case Nil
  then show ?case by (simp add: freed_def)
next
  case (Cons c t)
  then show ?case by (cases c) (simp_all add: freed_Cons)
qed

lemma neutral_no_squeeze: "list_all neutral t \<Longrightarrow> Squeeze k \<notin> set t"
  by (induction t) auto

lemma neutral_main_calls: "list_all neutral (main_calls m e pwdlen saltlen timeCost nRows)"
  using neutral_block_absorbs [of m 0 "nat (sint (nBlocksInput m pwdlen saltlen))"]
  by (simp add: main_calls_def)

lemma engine_block_absorbs: "engine_calls (block_absorbs m i j) = block_absorbs m i j"
  by (simp add: engine_calls_def block_absorbs_def)

lemma acquired_calls_init:
  "acquired calls_init = [MemMatrixDev, StateHost, StateDev, RowADev]"
  by (simp add: acquired_def calls_init_def)

lemma freed_calls_init: "freed calls_init = []"
  by (simp add: freed_def calls_init_def)

lemma freed_unwind: "freed unwind = [StateHost, StateDev, MemMatrixDev, RowADev]"
  by (simp add: freed_def unwind_def)

lemma acquired_unwind: "acquired unwind = []"
  by (simp add: acquired_def unwind_def)

lemma early_exits_balanced:
  assumes "t \<in> set early_exits"
  shows "distinct (freed t) \<and> set (acquired t) \<subseteq> set (freed t) \<and> (\<forall>k. Squeeze k \<notin> set t)"
  using assms
  by (auto simp: early_exits_def calls_init_def unwind_def acquired_def freed_def)

text \<open>
  A failing sponge call ends in status \<open>-1\<close>: the calls whose result is not read at once
  (\<open>initState\<close>, \<open>reducedSqueezeRow\<close>, \<open>squeeze\<close>) leave their error pending, and the next
  \<open>cudaGetLastError\<close> reads it.
\<close>

lemma engine_failure_reported:
  assumes run: "LYRA2 m e kLen pwd pwdlen salt saltlen timeCost nRows nCols fresh = (Status st, w)"
    and "engine_failed m e pwdlen saltlen"
  shows "st = - 1"
  using LYRA2_exits [OF run] assms(2) by auto

text \<open>
  Every return between the allocation of \<open>MemMatrixHost\<close> and \<open>squeeze\<close> is a failure
  that frees the four other resources and leaves \<open>MemMatrixHost\<close> allocated.
\<close>

lemma early_exits_no_host_row:
  assumes "t \<in> set early_exits"
  shows "MemMatrixHost \<notin> set (acquired t)"
  using assms
  by (auto simp: early_exits_def calls_init_def unwind_def acquired_def)

lemma failure_exits_leak_host_row:
  assumes run: "LYRA2 m e kLen pwd pwdlen salt saltlen timeCost nRows nCols fresh = (Status st, w)"
    and held: "MemMatrixHost \<in> set (acquired (trace w))"
    and before: "\<forall>k. Squeeze k \<notin> set (trace w)"
  shows "st = - 1 \<and> freed (trace w) = [StateHost, StateDev, MemMatrixDev, RowADev]"
proof -
  from LYRA2_exits [OF run] before consider
      (early) "trace w \<in> set early_exits"
    | (mid) t where "st = - 1" "list_all neutral t"
        "trace w = calls_init @ Malloc MemMatrixHost True # t @ unwind"
    by auto
  then show ?thesis
  proof cases
    case early
    with held show ?thesis using early_exits_no_host_row by blast
  next
    case mid
    have "freed (trace w) = [StateHost, StateDev, MemMatrixDev, RowADev]"
      using mid(2) unfolding mid(3)
      by (simp add: freed_append freed_calls_init freed_unwind neutral_freed freed_Cons)
    with mid(1) show ?thesis by simp
  qed
qed

section \<open>The example call\<close>

lemma lyra2_h_simps:
  "BLOCK_LEN_INT64 lyra2_h = 8" "BLOCK_LEN_BYTES lyra2_h = 64"
  "ROW_LEN_INT64 lyra2_h = 512" "ROW_LEN_BYTES lyra2_h = 4096"
  by (simp_all add: lyra2_h_def)

lemma nBlocksInput_0: "nBlocksInput lyra2_h 8 4 = 1"
  by (simp add: nBlocksInput_def lyra2_h_simps)

lemma length_staged_0: "length (staged pwd0 8 salt0 4 64 1 3 64) = 36"
  by (simp add: staged_def basil_def pwd0_def salt0_def length_int_bytes)

lemma pad_input_0:
  "pad_input lyra2_h pwd0 salt0 64 8 4 1 3 64 (replicate 4096 0) = Some (1, row0)"
  using pad_input_fits(1) [of lyra2_h 8 pwd0 4 salt0 64 1 3 64]
  by (simp add: lyra2_h_simps nBlocksInput_0 length_staged_0 row0_def nth_append)
    (simp add: pwd0_def salt0_def)

lemma take_row0: "take 8 row0 = pwd0"
  by (simp add: row0_def staged_def pwd0_def)

lemmas run_simps =
  run0_def LYRA2_def fresh_def init_matrix_run get_padded_input_run pad_input_0
  absorb_input_def cuda_def log_def cudaGetLastError_def fail_with_def cleanup_def
  setup_phase_run wandering_phase_run wrapup_phase_run free_memory_run word_sless_alt
  lyra2_h_simps no_faults_def fault_at_def calls_init_def unwind_def
  acquired_def freed_def engine_calls_def

lemma run0_no_faults:
  "run0 no_faults =
     (Status 0,
      \<lparr>trace = calls_init @
         [Malloc MemMatrixHost True, Memset MemMatrixHost, CudaMemcpyHostToDevice,
          Memset MemMatrixHost, InitState, AbsorbBlock 0, ReducedSqueezeRow 0,
          ReducedSqueezeRow 512, SetupGPU 3, Wandering 1 3, CudaMemcpyDeviceToHost,
          AbsorbBlock 1024, Squeeze 64, CudaFree MemMatrixDev, CudaMemset StateDev,
          CudaFree StateDev, CudaFree RowADev, Free StateHost, Free MemMatrixHost],
       lastError = False, hostRow = replicate 4096 0\<rparr>)"
  by (simp add: run_simps)

lemma run0_fault_235:
  "run0 (fault_at 235 0) =
     (Status (- 1),
      \<lparr>trace = calls_init @
         [Malloc MemMatrixHost True, Memset MemMatrixHost, CudaMemcpyHostToDevice] @ unwind,
       lastError = False, hostRow = row0\<rparr>)"
  by (simp add: run_simps)

lemma run0_fault_261:
  "run0 (fault_at 261 0) =
     (Status (- 1),
      \<lparr>trace = calls_init @
         [Malloc MemMatrixHost True, Memset MemMatrixHost, CudaMemcpyHostToDevice,
          Memset MemMatrixHost, InitState, AbsorbBlock 0] @ unwind,
       lastError = False, hostRow = replicate 4096 0\<rparr>)"
  by (simp add: run_simps)

lemma run0_fault_298:
  "run0 (fault_at 298 0) =
     (Status (- 1),
      \<lparr>trace = calls_init @
         [Malloc MemMatrixHost True, Memset MemMatrixHost, CudaMemcpyHostToDevice,
          Memset MemMatrixHost, InitState, AbsorbBlock 0, ReducedSqueezeRow 0,
          ReducedSqueezeRow 512, SetupGPU 3, Wandering 1 3] @ unwind,
       lastError = False, hostRow = replicate 4096 0\<rparr>)"
  by (simp add: run_simps)

lemma run0_fault_352:
  "run0 (fault_at 352 0) =
     (Status (- 1),
      \<lparr>trace = calls_init @
         [Malloc MemMatrixHost True, Memset MemMatrixHost, CudaMemcpyHostToDevice,
          Memset MemMatrixHost, InitState, AbsorbBlock 0, ReducedSqueezeRow 0,
          ReducedSqueezeRow 512, SetupGPU 3, Wandering 1 3, CudaMemcpyDeviceToHost,
          AbsorbBlock 1024, Squeeze 64, CudaFree MemMatrixDev, CudaMemset StateDev,
          Free StateHost, Free MemMatrixHost, CudaFree StateDev, CudaFree RowADev],
       lastError = False, hostRow = replicate 4096 0\<rparr>)"
  by (simp add: run_simps)

section \<open>The guard of line 85\<close>

text \<open>
  The guard compares the \<open>int\<close> sum \<open>pwdlen + saltlen\<close> with \<open>ROW_LEN_BYTES\<close>. While the sum
  of the two lengths is one an \<open>int\<close> holds, the guard sees it as it is: an oversized input
  is answered with \<open>-1\<close> and the world is left as it was found, with no call made.
\<close>

lemma guard_rejects_sum_in_range:
  assumes "sint (ROW_LEN_BYTES m) < sint pwdlen + sint saltlen"
    and "sint pwdlen + sint saltlen < 2 ^ 31"
  shows "LYRA2 m e kLen pwd pwdlen salt saltlen timeCost nRows nCols w = (Status (- 1), w)
       \<and> trace (snd (LYRA2 m e kLen pwd pwdlen salt saltlen timeCost nRows nCols fresh)) = []
       \<and> acquired
            (trace (snd (LYRA2 m e kLen pwd pwdlen salt saltlen timeCost nRows nCols fresh))) = []
       \<and> engine_calls
            (trace (snd (LYRA2 m e kLen pwd pwdlen salt saltlen timeCost nRows nCols fresh))) = []"
proof -
  have "- (2 ^ (LENGTH(32) - 1)) \<le> sint (ROW_LEN_BYTES m)" by (rule sint_ge)
  then have lo: "- (2 ^ 31) \<le> sint pwdlen + sint saltlen" using assms(1) by simp
  have "sint (pwdlen + saltlen) = sint pwdlen + sint saltlen"
    using lo assms(2) by (rule sint_add_nowrap)
  then have "ROW_LEN_BYTES m <s pwdlen + saltlen"
    using assms(1) by (simp add: word_sless_alt)
  then show ?thesis
    by (simp add: LYRA2_def fresh_def acquired_def engine_calls_def)
qed

text \<open>
  Past that, the sum wraps: two lengths that add up to \<open>2^31\<close> or more give a negative
  \<open>int\<close> sum.
\<close>

lemma sint_add_wraps_negative:
  fixes a b :: cint
  assumes "2 ^ 31 \<le> sint a + sint b"
  shows "sint (a + b) < 0"
proof (rule ccontr)
  assume "\<not> sint (a + b) < 0"
  then have nn: "0 \<le> sint (a + b)" by simp
  have w: "(word_of_int (sint a + sint b) :: cint) = a + b" by simp
  have "sint a < 2 ^ 31" "sint b < 2 ^ 31"
    using sint_lt [of a] sint_lt [of b] by simp_all
  then have hi: "sint a + sint b < 2 ^ 32" by simp
  have lo: "0 \<le> sint a + sint b" using assms by simp
  from nn have "0 \<le> sint (word_of_int (sint a + sint b) :: cint)" by (simp only: w)
  with lo hi have "sint a + sint b < 2 ^ 31"
    using sint_of_int_wrap [of "sint a + sint b"] by blast
  with assms show False by simp
qed

section \<open>The properties\<close>

subsection \<open>The padded input\<close>

text \<open>
  C1. The block count of line 203. For lengths that are lengths (non-negative, with a sum
  and a count that an \<open>int\<close> holds), \<open>nBlocksInput\<close> is
  \<open>(pwdlen + saltlen + 6 * sizeof(int)) div BLOCK_LEN_BYTES + 1\<close>; when the sum is a multiple
  of the block length the blocks reserved take one whole block more than the sum.
\<close>

theorem nBlocksInput_reserves_extra_block:
  assumes "0 \<le> sint pwdlen" and "0 \<le> sint saltlen"
    and "0 < sint (BLOCK_LEN_BYTES m)"
    and "sint pwdlen + sint saltlen < 2^31"
    and "(sint pwdlen + sint saltlen + 6 * sizeof_int) div sint (BLOCK_LEN_BYTES m) + 1 < 2^31"
  shows "sint (nBlocksInput m pwdlen saltlen) =
           (sint pwdlen + sint saltlen + 6 * sizeof_int) div sint (BLOCK_LEN_BYTES m) + 1
       \<and> ((sint pwdlen + sint saltlen + 6 * sizeof_int) mod sint (BLOCK_LEN_BYTES m) = 0 \<longrightarrow>
            sint (nBlocksInput m pwdlen saltlen) * sint (BLOCK_LEN_BYTES m) =
              sint pwdlen + sint saltlen + 6 * sizeof_int + sint (BLOCK_LEN_BYTES m))"
proof -
  let ?L = "sint pwdlen + sint saltlen + 24"
  let ?B = "sint (BLOCK_LEN_BYTES m)"
  have n: "sint (nBlocksInput m pwdlen saltlen) = ?L div ?B + 1"
    using assms by (intro nBlocksInput_sint) (simp_all add: sizeof_int_def)
  have "(?L div ?B + 1) * ?B = ?L + ?B" if "?L mod ?B = 0"
  proof -
    have "?L div ?B * ?B = ?L" using that by (simp add: mod_0_imp_dvd)
    then show ?thesis by (simp add: algebra_simps)
  qed
  with n show ?thesis by (simp add: sizeof_int_def)
qed

theorem nBlocksInput_reserves_extra_block_witness:
  "sint (nBlocksInput lyra2_h 32 8) = 2
   \<and> sint (nBlocksInput lyra2_h 32 8) * 64 = 32 + 8 + 24 + 64"
  using nBlocksInput_reserves_extra_block [of 32 8 lyra2_h]
  by (simp add: lyra2_h_simps sizeof_int_def)





text \<open>
  C10 against the code. The check of line 85 does not keep the padded input inside the
  row. Whatever the macros are, every input with
  \<open>ROW_LEN_BYTES - 6 * sizeof(int) \<le> pwdlen + saltlen \<le> ROW_LEN_BYTES\<close> passes the check,
  yet \<open>nBlocksInput * BLOCK_LEN_BYTES\<close> is above \<open>ROW_LEN_BYTES\<close>, a write of lines 207
  to 232 leaves \<open>MemMatrixHost\<close>, and the call ends in undefined behaviour.
\<close>

theorem guard_admits_row_overrun:
  fixes kLen timeCost nRows nCols :: cint
  assumes B: "0 < sint (BLOCK_LEN_BYTES m)"
    and p: "0 \<le> sint pwdlen" and s: "0 \<le> sint saltlen"
    and guard: "sint pwdlen + sint saltlen \<le> sint (ROW_LEN_BYTES m)"
    and gap: "sint (ROW_LEN_BYTES m) \<le> sint pwdlen + sint saltlen + 6 * sizeof_int"
    and rng: "(sint pwdlen + sint saltlen + 6 * sizeof_int) div sint (BLOCK_LEN_BYTES m) + 1
                < 2 ^ 31"
    and ok: "\<forall>l i. \<not> fails e l i"
  shows "\<not> ROW_LEN_BYTES m <s pwdlen + saltlen
       \<and> sint (ROW_LEN_BYTES m)
           < sint (nBlocksInput m pwdlen saltlen) * sint (BLOCK_LEN_BYTES m)
       \<and> pad_input m pwd salt kLen pwdlen saltlen timeCost nRows nCols
           (replicate (nat (sint (ROW_LEN_BYTES m))) 0) = None
       \<and> fst (LYRA2 m e kLen pwd pwdlen salt saltlen timeCost nRows nCols fresh) = Undefined"
proof -
  let ?R = "sint (ROW_LEN_BYTES m)" and ?B = "sint (BLOCK_LEN_BYTES m)"
  let ?L = "sint pwdlen + sint saltlen + 24"
  have Rlt: "?R < 2 ^ 31" using sint_lt [of "ROW_LEN_BYTES m"] by simp
  have sum: "sint (pwdlen + saltlen) = sint pwdlen + sint saltlen"
    using p s guard Rlt by (intro sint_add_nowrap) simp_all
  have g: "\<not> ROW_LEN_BYTES m <s pwdlen + saltlen"
    using guard by (simp add: word_sless_alt sum)
  have nB: "sint (nBlocksInput m pwdlen saltlen) = ?L div ?B + 1"
    using p s B guard Rlt rng by (intro nBlocksInput_sint) (simp_all add: sizeof_int_def)
  have LN: "?L < (?L div ?B + 1) * ?B" using B by (rule block_end_gt)
  then have foot: "?R < sint (nBlocksInput m pwdlen saltlen) * ?B"
    using nB gap by (simp add: sizeof_int_def)
  have pad: "pad_input m pwd salt kLen pwdlen saltlen timeCost nRows nCols
               (replicate (nat ?R) 0) = None"
  proof (cases "pad_input m pwd salt kLen pwdlen saltlen timeCost nRows nCols
                  (replicate (nat ?R) 0)")
    case None
    then show ?thesis .
  next
    case (Some r)
    obtain n buf where "r = (n, buf)" by (cases r)
    with Some have "(?L div ?B + 1) * ?B \<le> ?R"
      using pad_input_Some_fits [of m pwd salt kLen pwdlen saltlen timeCost nRows nCols n buf]
      by simp
    with LN gap show ?thesis by (simp add: sizeof_int_def)
  qed
  have "fst (LYRA2 m e kLen pwd pwdlen salt saltlen timeCost nRows nCols fresh) = Undefined"
    using ok pad g by (simp add: LYRA2_def fresh_def init_matrix_run get_padded_input_run)
  with g foot pad show ?thesis by blast
qed

theorem guard_admits_row_overrun_witness:
  "sint (nBlocksInput lyra2_h 4096 0) * 64 = 4160
   \<and> pad_input lyra2_h (replicate 4096 0x61) [] 64 4096 0 1 3 64 (replicate 4096 0) = None
   \<and> fst (LYRA2 lyra2_h no_faults 64 (replicate 4096 0x61) 4096 [] 0 1 3 64 fresh) = Undefined"
proof -
  have n: "sint (nBlocksInput lyra2_h 4096 0) = 65"
    by (simp add: nBlocksInput_def lyra2_h_simps)
  show ?thesis
    using guard_admits_row_overrun
      [of lyra2_h 4096 0 no_faults "replicate 4096 0x61" "[]" 64 1 3 64]
    by (simp add: lyra2_h_simps n sizeof_int_def no_faults_def)
qed

subsection \<open>Exits, resources and the sponge calls\<close>

text \<open>
  C4 against the code. Line 85 adds \<open>pwdlen\<close> and \<open>saltlen\<close> as \<open>int\<close>s. When the sum of
  the two lengths is \<open>2^31\<close> or more, so above every \<open>ROW_LEN_BYTES\<close> an \<open>int\<close> holds, the
  \<open>int\<close> sum wraps to a negative value and the guard does not fire: with no call failing,
  \<open>LYRA2\<close> acquires all five resources and then copies past the end of the row
  \<open>MemMatrixHost\<close>, which is undefined behaviour, where \<open>-1\<close> was to be returned before any
  allocation. (A sum that an \<open>int\<close> holds is rejected with no call made:
  \<open>guard_rejects_sum_in_range\<close>.)
\<close>

theorem guard_misses_int_overflow:
  fixes kLen timeCost nRows nCols :: cint
  assumes R: "0 \<le> sint (ROW_LEN_BYTES m)"
    and over: "2 ^ 31 \<le> sint pwdlen + sint saltlen"
    and ok: "\<forall>l i. \<not> fails e l i"
  shows "sint (ROW_LEN_BYTES m) < sint pwdlen + sint saltlen
       \<and> \<not> ROW_LEN_BYTES m <s pwdlen + saltlen
       \<and> LYRA2 m e kLen pwd pwdlen salt saltlen timeCost nRows nCols fresh
           = (Undefined,
              \<lparr>trace = calls_init @ [Malloc MemMatrixHost True, Memset MemMatrixHost],
               lastError = False, hostRow = replicate (nat (sint (ROW_LEN_BYTES m))) 0\<rparr>)
       \<and> acquired
            (trace (snd (LYRA2 m e kLen pwd pwdlen salt saltlen timeCost nRows nCols fresh)))
           = [MemMatrixDev, StateHost, StateDev, RowADev, MemMatrixHost]"
proof -
  let ?R = "sint (ROW_LEN_BYTES m)"
  have Rlt: "?R < 2 ^ 31" using sint_lt [of "ROW_LEN_BYTES m"] by simp
  with over have big: "?R < sint pwdlen + sint saltlen" by linarith
  have "sint (pwdlen + saltlen) < 0" using over by (rule sint_add_wraps_negative)
  with R have g: "\<not> ROW_LEN_BYTES m <s pwdlen + saltlen"
    by (simp add: word_sless_alt)
  have pad: "pad_input m pwd salt kLen pwdlen saltlen timeCost nRows nCols
               (replicate (nat ?R) 0) = None"
  proof (cases "pad_input m pwd salt kLen pwdlen saltlen timeCost nRows nCols
                  (replicate (nat ?R) 0)")
    case None
    then show ?thesis .
  next
    case (Some r)
    obtain n buf where "r = (n, buf)" by (cases r)
    with Some
    have "sint pwdlen + sint saltlen + 24 < int (length (replicate (nat ?R) (0 :: byte)))"
      using pad_input_Some_facts [of m pwd salt kLen pwdlen saltlen timeCost nRows nCols
          "replicate (nat ?R) 0" n buf]
      by blast
    with R have "sint pwdlen + sint saltlen + 24 < ?R" by simp
    with big show ?thesis by simp
  qed
  have run: "LYRA2 m e kLen pwd pwdlen salt saltlen timeCost nRows nCols fresh
           = (Undefined,
              \<lparr>trace = calls_init @ [Malloc MemMatrixHost True, Memset MemMatrixHost],
               lastError = False, hostRow = replicate (nat ?R) 0\<rparr>)"
    using ok pad g by (simp add: LYRA2_def fresh_def init_matrix_run get_padded_input_run)
  have "acquired (calls_init @ [Malloc MemMatrixHost True, Memset MemMatrixHost])
          = [MemMatrixDev, StateHost, StateDev, RowADev, MemMatrixHost]"
    by (simp add: acquired_append acquired_calls_init acquired_Cons acquired_Nil)
  with run have "acquired
            (trace (snd (LYRA2 m e kLen pwd pwdlen salt saltlen timeCost nRows nCols fresh)))
           = [MemMatrixDev, StateHost, StateDev, RowADev, MemMatrixHost]"
    by simp
  with big g run show ?thesis by blast
qed

theorem guard_misses_int_overflow_witness:
  "\<not> ROW_LEN_BYTES lyra2_h <s (2147483647 :: cint) + 1
   \<and> fst (LYRA2 lyra2_h no_faults 64 (replicate 2147483647 0x61) 2147483647 [0x73] 1 1 3 64
            fresh) = Undefined
   \<and> acquired
        (trace (snd (LYRA2 lyra2_h no_faults 64 (replicate 2147483647 0x61) 2147483647 [0x73] 1
                       1 3 64 fresh)))
       = [MemMatrixDev, StateHost, StateDev, RowADev, MemMatrixHost]"
proof -
  have "0 \<le> sint (ROW_LEN_BYTES lyra2_h)"
    and "2 ^ 31 \<le> sint (2147483647 :: cint) + sint (1 :: cint)"
    and "\<forall>l i. \<not> fails no_faults l i"
    by (simp_all add: lyra2_h_simps no_faults_def)
  from guard_misses_int_overflow [OF this, of 64 "replicate 2147483647 0x61" "[0x73]" 1 3 64]
  show ?thesis
    by (simp add: acquired_append acquired_calls_init acquired_Cons acquired_Nil)
qed

text \<open>
  C5, as stated, fails: on the success path the releases are in the order matrix,
  device state, row index, host state, host row, which is not the reverse of the order of
  acquisition (the matrix is acquired first and released first).
\<close>

theorem release_order_counterexample:
  "fst (run0 no_faults) = Status 0
   \<and> acquired (trace (snd (run0 no_faults))) =
       [MemMatrixDev, StateHost, StateDev, RowADev, MemMatrixHost]
   \<and> freed (trace (snd (run0 no_faults))) =
       [MemMatrixDev, StateDev, RowADev, StateHost, MemMatrixHost]
   \<and> freed (trace (snd (run0 no_faults))) \<noteq> rev (acquired (trace (snd (run0 no_faults))))"
  by (simp add: run0_no_faults acquired_def freed_def calls_init_def)

text \<open>
  C5, amended. On every exit of \<open>LYRA2\<close> no pointer is freed twice, and every resource
  acquired, other than the host row \<open>MemMatrixHost\<close>, is freed (so exactly once); on the
  success exit all five resources are acquired and freed exactly once, in the order
  matrix, device state, row index, host state, host row.
\<close>

theorem releases_balanced:
  assumes run: "LYRA2 m e kLen pwd pwdlen salt saltlen timeCost nRows nCols fresh = (Status st, w)"
  shows "distinct (freed (trace w))
       \<and> (\<forall>r. r \<in> set (acquired (trace w)) \<and> r \<noteq> MemMatrixHost \<longrightarrow> r \<in> set (freed (trace w)))
       \<and> (st = 0 \<longrightarrow>
            acquired (trace w) = [MemMatrixDev, StateHost, StateDev, RowADev, MemMatrixHost] \<and>
            freed (trace w) = [MemMatrixDev, StateDev, RowADev, StateHost, MemMatrixHost])"
proof -
  note x = LYRA2_exits [OF run]
  have nm: "acquired (main_calls m e pwdlen saltlen timeCost nRows) = []"
       "freed (main_calls m e pwdlen saltlen timeCost nRows) = []"
    using neutral_main_calls by (simp_all add: neutral_acquired neutral_freed)
  from x consider
      (early) "st = - 1" "trace w \<in> set early_exits"
    | (mid) t where "st = - 1" "list_all neutral t"
        "trace w = calls_init @ Malloc MemMatrixHost True # t @ unwind"
    | (late) "st = - 1"
        "trace w = calls_init @ Malloc MemMatrixHost True #
              main_calls m e pwdlen saltlen timeCost nRows @
              [Squeeze kLen, CudaFree MemMatrixDev, CudaMemset StateDev, Free StateHost,
               Free MemMatrixHost, CudaFree StateDev, CudaFree RowADev]"
    | (ok) "st = 0"
        "trace w = calls_init @ Malloc MemMatrixHost True #
              main_calls m e pwdlen saltlen timeCost nRows @
              [Squeeze kLen, CudaFree MemMatrixDev, CudaMemset StateDev, CudaFree StateDev,
               CudaFree RowADev, Free StateHost, Free MemMatrixHost]"
    by auto
  then show ?thesis
  proof cases
    case early
    then show ?thesis using early_exits_balanced [of "trace w"] by auto
  next
    case mid
    have "acquired (trace w) = [MemMatrixDev, StateHost, StateDev, RowADev, MemMatrixHost]"
      and "freed (trace w) = [StateHost, StateDev, MemMatrixDev, RowADev]"
      using mid(2) unfolding mid(3)
      by (simp_all add: acquired_append freed_append acquired_calls_init freed_calls_init
          freed_unwind acquired_unwind neutral_acquired neutral_freed
          acquired_Cons freed_Cons acquired_Nil freed_Nil)
    with mid(1) show ?thesis by auto
  next
    case late
    have "acquired (trace w) = [MemMatrixDev, StateHost, StateDev, RowADev, MemMatrixHost]"
      and "freed (trace w) = [MemMatrixDev, StateHost, MemMatrixHost, StateDev, RowADev]"
      unfolding late(2)
      by (simp_all add: acquired_append freed_append acquired_calls_init freed_calls_init nm
          acquired_Cons freed_Cons acquired_Nil freed_Nil)
    with late(1) show ?thesis by auto
  next
    case ok
    have "acquired (trace w) = [MemMatrixDev, StateHost, StateDev, RowADev, MemMatrixHost]"
      and "freed (trace w) = [MemMatrixDev, StateDev, RowADev, StateHost, MemMatrixHost]"
      unfolding ok(2)
      by (simp_all add: acquired_append freed_append acquired_calls_init freed_calls_init nm
          acquired_Cons freed_Cons acquired_Nil freed_Nil)
    then show ?thesis by auto
  qed
qed

theorem releases_balanced_witness:
  "distinct (freed (trace (snd (run0 no_faults))))
   \<and> freed (trace (snd (run0 no_faults))) =
       [MemMatrixDev, StateDev, RowADev, StateHost, MemMatrixHost]"
proof -
  have "LYRA2 lyra2_h no_faults 64 pwd0 8 salt0 4 1 3 64 fresh =
          (Status 0, snd (run0 no_faults))"
    using run0_no_faults by (simp add: run0_def)
  from releases_balanced [OF this] show ?thesis by simp
qed

text \<open>
  C6 against the code. When the \<open>cudaMemcpy\<close> of line 235 fails, \<open>LYRA2\<close> returns
  \<open>-1\<close> with the password still in \<open>MemMatrixHost\<close>, which is neither zeroed nor
  freed. When the wandering kernel of line 298 fails, \<open>stateDev\<close> is freed and the last
  call that wrote it is not the zeroing \<open>cudaMemset\<close>. The success path does wipe it.
\<close>

theorem sensitive_buffers_left_unwiped:
  "fst (run0 (fault_at 235 0)) = Status (- 1)
   \<and> take 8 (hostRow (snd (run0 (fault_at 235 0)))) = pwd0
   \<and> MemMatrixHost \<in> set (acquired (trace (snd (run0 (fault_at 235 0)))))
   \<and> MemMatrixHost \<notin> set (freed (trace (snd (run0 (fault_at 235 0)))))
   \<and> fst (run0 (fault_at 298 0)) = Status (- 1)
   \<and> CudaFree StateDev \<in> set (trace (snd (run0 (fault_at 298 0))))
   \<and> \<not> wiped_before_free (trace (snd (run0 (fault_at 298 0))))
   \<and> wiped_before_free (trace (snd (run0 no_faults)))"
  by (simp add: run0_fault_235 run0_fault_298 run0_no_faults take_row0 acquired_def freed_def
      calls_init_def unwind_def wiped_before_free_def)

text \<open>
  C7 against the code. When the first \<open>absorbBlock\<close> launch fails, \<open>LYRA2\<close> returns
  \<open>-1\<close> having acquired all five resources and freed four: \<open>MemMatrixHost\<close> is not
  released.
\<close>

theorem absorb_failure_leaks_host_row:
  "fst (run0 (fault_at 261 0)) = Status (- 1)
   \<and> acquired (trace (snd (run0 (fault_at 261 0)))) =
       [MemMatrixDev, StateHost, StateDev, RowADev, MemMatrixHost]
   \<and> freed (trace (snd (run0 (fault_at 261 0)))) =
       [StateHost, StateDev, MemMatrixDev, RowADev]"
  by (simp add: run0_fault_261 acquired_def freed_def calls_init_def unwind_def)

text \<open>
  C8. On the success path the sponge is called in this order: \<open>initState\<close>; one
  \<open>absorbBlock\<close> per block of the padded input, blocks \<open>0\<close> to \<open>nBlocksInput - 1\<close> in
  index order; \<open>reducedSqueezeRow\<close> on row 0, then on row 1; \<open>setupGPU\<close> once; \<open>wandering\<close>
  once; one \<open>absorbBlock\<close> of row \<open>rowa\<close>; \<open>squeeze\<close>.
\<close>

theorem phases_in_order:
  assumes run: "LYRA2 m e kLen pwd pwdlen salt saltlen timeCost nRows nCols fresh = (Status 0, w)"
  shows "engine_calls (trace w) =
           [InitState] @
           block_absorbs m 0 (nat (sint (nBlocksInput m pwdlen saltlen))) @
           [ReducedSqueezeRow 0, ReducedSqueezeRow (ROW_LEN_INT64 m), SetupGPU nRows,
            Wandering timeCost nRows, AbsorbBlock (rowa e * ROW_LEN_INT64 m), Squeeze kLen]"
proof -
  from LYRA2_exits [OF run]
  have "trace w = calls_init @ Malloc MemMatrixHost True #
              main_calls m e pwdlen saltlen timeCost nRows @
              [Squeeze kLen, CudaFree MemMatrixDev, CudaMemset StateDev, CudaFree StateDev,
               CudaFree RowADev, Free StateHost, Free MemMatrixHost]"
    by simp
  then show ?thesis
    using engine_block_absorbs [of m 0 "nat (sint (nBlocksInput m pwdlen saltlen))"]
    by (simp add: engine_calls_def main_calls_def calls_init_def)
qed

theorem phases_in_order_witness:
  "engine_calls (trace (snd (run0 no_faults))) =
     [InitState, AbsorbBlock 0, ReducedSqueezeRow 0, ReducedSqueezeRow 512, SetupGPU 3,
      Wandering 1 3, AbsorbBlock 1024, Squeeze 64]"
proof -
  have "LYRA2 lyra2_h no_faults 64 pwd0 8 salt0 4 1 3 64 fresh =
          (Status 0, snd (run0 no_faults))"
    using run0_no_faults by (simp add: run0_def)
  from phases_in_order [OF this] show ?thesis
    by (simp add: nBlocksInput_0 block_absorbs_def lyra2_h_simps no_faults_def)
qed

text \<open>
  C9, as stated, fails: when the \<open>cudaMemset\<close> of line 352 fails, \<open>LYRA2\<close> returns
  \<open>-1\<close> after \<open>squeeze\<close> has been given the caller's buffer.
\<close>

theorem failure_after_squeeze_counterexample:
  "fst (run0 (fault_at 352 0)) = Status (- 1)
   \<and> Squeeze 64 \<in> set (trace (snd (run0 (fault_at 352 0))))"
  by (simp add: run0_fault_352)

text \<open>
  C9, amended. A status that \<open>LYRA2\<close> returns is \<open>0\<close> or \<open>-1\<close>. When it is \<open>-1\<close>, either
  \<open>squeeze\<close> has not been called, so the caller's buffer is untouched, or the return is
  the one of line 360, after \<open>squeeze\<close>, which is taken when a call the check of line 353
  covers has failed (\<open>squeeze\<close> of line 346, \<open>cudaFree\<close> of line 350, \<open>cudaMemset\<close> of
  line 352).
\<close>

theorem status_and_output_buffer:
  assumes run: "LYRA2 m e kLen pwd pwdlen salt saltlen timeCost nRows nCols fresh = (Status st, w)"
  shows "(st = 0 \<or> st = - 1)
       \<and> (st = - 1 \<longrightarrow>
            (\<forall>k. Squeeze k \<notin> set (trace w))
          \<or> ((fails e 346 0 \<or> fails e 350 0 \<or> fails e 352 0) \<and>
              trace w = calls_init @ Malloc MemMatrixHost True #
                main_calls m e pwdlen saltlen timeCost nRows @
                [Squeeze kLen, CudaFree MemMatrixDev, CudaMemset StateDev, Free StateHost,
                 Free MemMatrixHost, CudaFree StateDev, CudaFree RowADev]))"
proof -
  note x = LYRA2_exits [OF run]
  from x consider
      (early) "st = - 1" "trace w \<in> set early_exits"
    | (mid) t where "st = - 1" "list_all neutral t"
        "trace w = calls_init @ Malloc MemMatrixHost True # t @ unwind"
    | (late) "st = - 1" "fails e 346 0 \<or> fails e 350 0 \<or> fails e 352 0"
        "trace w = calls_init @ Malloc MemMatrixHost True #
              main_calls m e pwdlen saltlen timeCost nRows @
              [Squeeze kLen, CudaFree MemMatrixDev, CudaMemset StateDev, Free StateHost,
               Free MemMatrixHost, CudaFree StateDev, CudaFree RowADev]"
    | (ok) "st = 0"
    by auto
  then show ?thesis
  proof cases
    case early
    then show ?thesis using early_exits_balanced [of "trace w"] by auto
  next
    case mid
    have "Squeeze k \<notin> set (trace w)" for k
      using neutral_no_squeeze [OF mid(2), of k] unfolding mid(3)
      by (simp add: calls_init_def unwind_def)
    with mid(1) show ?thesis by simp
  next
    case late
    then show ?thesis by simp
  next
    case ok
    then show ?thesis by simp
  qed
qed

theorem status_and_output_buffer_witness:
  "Squeeze 64 \<notin> set (trace (snd (run0 (fault_at 261 0))))"
proof -
  have "LYRA2 lyra2_h (fault_at 261 0) 64 pwd0 8 salt0 4 1 3 64 fresh =
          (Status (- 1), snd (run0 (fault_at 261 0)))"
    using run0_fault_261 by (simp add: run0_def)
  from status_and_output_buffer [OF this] show ?thesis
    by (simp add: fault_at_def)
qed

end
